theory Spec2Isabelle
  imports Complex_Main "HOL-Library.Sublist"
begin

text \<open>
  Captain Hooks answers two kinds of event with a short-lived process. The security
  validator (\<open>hooks/security-validator.hook.ts\<close>, with \<open>hooks/lib/paths.ts\<close>) decides
  before a tool runs whether the call is allowed, needs confirmation or is blocked. The
  skill evaluator (\<open>hooks/skill-eval.hook.ts\<close>) scores a prompt against the activation rules
  and prints the skills to suggest. Both are embedded here as functions of the payload and
  of what the process finds around it (files, directories, clock, and the built-ins for
  regular expressions and case), followed by the properties proved of them.
\<close>

section \<open>Strings\<close>

text \<open>
  A string is a list of characters, one per code unit of the source's strings.
  \<open>startsWith\<close> is \<^const>\<open>prefix\<close>; \<open>includes\<close> is searched position by position.
\<close>

fun includes_str :: "string \<Rightarrow> string \<Rightarrow> bool" where
  "includes_str [] t = (t = [])"
| "includes_str (c # cs) t = (prefix t (c # cs) \<or> includes_str cs t)"

text \<open>The class \<open>\w\<close> of a regular expression without the unicode flag: \<open>[A-Za-z0-9_]\<close>.\<close>

definition isWordChar :: "char \<Rightarrow> bool" where
  "isWordChar c =
     (let n = (of_char c :: nat)
      in (48 \<le> n \<and> n \<le> 57) \<or> (65 \<le> n \<and> n \<le> 90) \<or> n = 95 \<or> (97 \<le> n \<and> n \<le> 122))"

text \<open>
  \<open>\b\<close> right after a word character: the rest of the input is empty or starts with a
  character outside \<open>\w\<close>.
\<close>

fun wordEnds :: "string \<Rightarrow> bool" where
  "wordEnds [] = True"
| "wordEnds (d # _) = (\<not> isWordChar d)"

section \<open>The text normalizer\<close>

text \<open>
  \<^verbatim>\<open>command.replace(/\$\{HOME\}/g, '~')\<close>: a global replace scans from the left and
  continues after each match.
\<close>

fun replaceBraced :: "string \<Rightarrow> string" where
  "replaceBraced [] = []"
| "replaceBraced (c # cs) =
     (if prefix ''${HOME}'' (c # cs) then CHR ''~'' # replaceBraced (drop 6 cs)
      else c # replaceBraced cs)"

text \<open>\<^verbatim>\<open>.replace(/\$HOME\b/g, '~')\<close>\<close>

fun replaceBare :: "string \<Rightarrow> string" where
  "replaceBare [] = []"
| "replaceBare (c # cs) =
     (if prefix ''$HOME'' (c # cs) \<and> wordEnds (drop 4 cs) then CHR ''~'' # replaceBare (drop 4 cs)
      else c # replaceBare cs)"

definition normalizeHomeTokens :: "string \<Rightarrow> string" where
  "normalizeHomeTokens command = replaceBare (replaceBraced command)"

text \<open>
  The contract in the specification's words: reading the text once from the left, each
  home-directory token (the braced form, or the bare form ending at a word boundary) becomes
  the sentinel \<open>~\<close>, and every other character is copied.
\<close>

fun homeTokensToSentinel :: "string \<Rightarrow> string" where
  "homeTokensToSentinel [] = []"
| "homeTokensToSentinel (c # cs) =
     (if prefix ''${HOME}'' (c # cs) then CHR ''~'' # homeTokensToSentinel (drop 6 cs)
      else if prefix ''$HOME'' (c # cs) \<and> wordEnds (drop 4 cs)
        then CHR ''~'' # homeTokensToSentinel (drop 4 cs)
      else c # homeTokensToSentinel cs)"

section \<open>Event payloads\<close>

text \<open>
  The payload read from standard input is whatever \<open>JSON.parse\<close> returns; \<open>readStdin\<close>
  yields \<open>null\<close> when nothing usable arrived (timeout, empty text, syntax error), which is
  \<^term>\<open>JNull\<close> here too. An object lists its members in the order of the text; a later
  member of the same name replaces an earlier one.
\<close>

datatype json =
    JNull
  | JBool bool
  | JNum rat
  | JStr string
  | JArr "json list"
  | JObj "(string \<times> json) list"

text \<open>
  \<open>obj.name\<close> for the member names the hooks read (\<open>tool_name\<close>, \<open>session_id\<close>,
  \<open>tool_input\<close>, \<open>command\<close>, \<open>file_path\<close>, \<open>prompt\<close>); \<open>None\<close> is \<open>undefined\<close>. An array
  has none of these members.
\<close>

fun property :: "json \<Rightarrow> string \<Rightarrow> json option" where
  "property (JObj kvs) k = map_of (rev kvs) k"
| "property _ k = None"

text \<open>\<open>typeof v === 'object'\<close>, which holds for \<open>null\<close> and for arrays as well.\<close>

fun typeofObject :: "json \<Rightarrow> bool" where
  "typeofObject JNull = True"
| "typeofObject (JArr _) = True"
| "typeofObject (JObj _) = True"
| "typeofObject _ = False"

record HookInput =
  tool_name :: string
  tool_input :: json
  session_id :: string

definition validateInput :: "json \<Rightarrow> HookInput option" where
  "validateInput raw =
     (if raw = JNull \<or> \<not> typeofObject raw then None
      else case property raw ''tool_name'' of
        Some (JStr tn) \<Rightarrow>
          (case property raw ''session_id'' of
             Some (JStr sid) \<Rightarrow>
               (case property raw ''tool_input'' of
                  Some ti \<Rightarrow>
                    (if \<not> typeofObject ti \<or> ti = JNull then None
                     else Some \<lparr>tool_name = tn, tool_input = ti, session_id = sid\<rparr>)
                | None \<Rightarrow> None)
           | _ \<Rightarrow> None)
      | _ \<Rightarrow> None)"

definition extractCommand :: "json \<Rightarrow> string option" where
  "extractCommand input = (case property input ''command'' of Some (JStr s) \<Rightarrow> Some s | _ \<Rightarrow> None)"

definition extractPath :: "json \<Rightarrow> string option" where
  "extractPath input = (case property input ''file_path'' of Some (JStr s) \<Rightarrow> Some s | _ \<Rightarrow> None)"

section \<open>Paths\<close>

text \<open>\<open>(?=\/|$)\<close>: the rest of the input is empty or starts with a slash.\<close>

fun slashOrEnd :: "string \<Rightarrow> bool" where
  "slashOrEnd [] = True"
| "slashOrEnd (d # _) = (d = CHR ''/'')"

text \<open>
  \<open>path.replace(/^tok(?=\/|$)/, by)\<close> for a literal token. The replacement text is the
  home directory, taken to hold no \<open>$\<close> (which \<open>replace\<close> would read as a pattern).
\<close>

definition replaceLeading :: "string \<Rightarrow> string \<Rightarrow> string \<Rightarrow> string" where
  "replaceLeading tok by path =
     (if prefix tok path \<and> slashOrEnd (drop (length tok) path)
      then by @ drop (length tok) path else path)"

text \<open>\<open>expandPath\<close> of \<open>hooks/lib/paths.ts\<close>; the first argument is \<open>homedir()\<close>.\<close>

definition expandPath :: "string \<Rightarrow> string \<Rightarrow> string" where
  "expandPath HOME path =
     replaceLeading ''~'' HOME (replaceLeading ''${HOME}'' HOME (replaceLeading ''$HOME'' HOME path))"

text \<open>\<open>s.split(sep)\<close> for a one-character separator.\<close>

fun split :: "char \<Rightarrow> string \<Rightarrow> string list" where
  "split sep [] = [[]]"
| "split sep (c # cs) =
     (if c = sep then [] # split sep cs
      else case split sep cs of w # ws \<Rightarrow> (c # w) # ws | [] \<Rightarrow> [[c]])"

text \<open>
  The segment walk of POSIX \<open>path.resolve\<close> on an absolute path: empty segments and \<open>.\<close>
  are skipped, \<open>..\<close> leaves the last directory entered (and stays at the root). The
  directories entered so far are kept innermost first.
\<close>

fun walk :: "string list \<Rightarrow> string list \<Rightarrow> string list" where
  "walk entered [] = rev entered"
| "walk entered (s # ss) =
     (if s = [] \<or> s = ''.'' then walk entered ss
      else if s = ''..'' then walk (drop 1 entered) ss
      else walk (s # entered) ss)"

definition segments :: "string \<Rightarrow> string \<Rightarrow> string list" where
  "segments cwd p = walk [] (split CHR ''/'' (if prefix ''/'' p then p else cwd @ ''/'' @ p))"

definition render :: "string list \<Rightarrow> string" where
  "render segs = (if segs = [] then ''/'' else concat (map (\<lambda>s. CHR ''/'' # s) segs))"

text \<open>
  \<open>resolve(p)\<close> of the \<open>path\<close> module with one argument: the canonical absolute path of
  \<open>p\<close>, relative paths being taken from the working directory \<open>cwd\<close> (an absolute path).
\<close>

definition resolve :: "string \<Rightarrow> string \<Rightarrow> string" where
  "resolve cwd p = render (segments cwd p)"

section \<open>The rule store of the security validator\<close>

text \<open>
  A compiled pattern keeps the regular expression as its \<open>test\<close> function (patterns are
  compiled without flags, so \<open>test\<close> has no state) beside the source text.
\<close>

record CompiledPattern =
  regex :: "string \<Rightarrow> bool"
  source :: string

record SecurityPatterns =
  commands_block :: "CompiledPattern list"
  commands_confirm :: "CompiledPattern list"
  paths_zeroAccess :: "string list"
  paths_confirmWrite :: "string list"

text \<open>
  What the process finds at \<open>security/patterns.yaml\<close>: no file, a file whose reading
  raises, or a file with its text.
\<close>

datatype fileState = Absent | Unreadable | Contents string

text \<open>
  The surroundings of one run: the home directory, the working directory, the pattern
  file, and the regular-expression constructor \<open>new RegExp(source)\<close>, which gives the
  pattern's \<open>test\<close> or raises (\<open>None\<close>).
\<close>

record env =
  HOME :: string
  cwd :: string
  patternsFile :: fileState
  RegExp :: "string \<Rightarrow> (string \<Rightarrow> bool) option"

text \<open>White space as \<open>trim\<close> sees it, among the characters of a \<^typ>\<open>string\<close>.\<close>

definition isSpace :: "char \<Rightarrow> bool" where
  "isSpace c = ((of_char c :: nat) \<in> {9, 10, 11, 12, 13, 32, 160})"

definition trim :: "string \<Rightarrow> string" where
  "trim s = rev (dropWhile isSpace (rev (dropWhile isSpace s)))"

definition endsWith :: "string \<Rightarrow> string \<Rightarrow> bool" where
  "endsWith s t = prefix (rev t) (rev s)"

definition isQuote :: "char \<Rightarrow> bool" where
  "isQuote c = (c = CHR 0x22 \<or> c = CHR 0x27)"

text \<open>\<open>.replace(/^["']|["']$/g, '')\<close>: one quote off the front, then one off the end.\<close>

definition stripQuotes :: "string \<Rightarrow> string" where
  "stripQuotes v =
     (let v1 = (case v of c # cs \<Rightarrow> if isQuote c then cs else v | [] \<Rightarrow> v)
      in if v1 \<noteq> [] \<and> isQuote (last v1) then butlast v1 else v1)"

record scanner =
  currentSection :: string
  currentSubSection :: string
  patternsSoFar :: SecurityPatterns

definition noPatterns :: SecurityPatterns where
  "noPatterns = \<lparr>commands_block = [], commands_confirm = [], paths_zeroAccess = [],
                  paths_confirmWrite = []\<rparr>"

text \<open>One turn of the loop over the lines of the pattern file.\<close>

definition scanLine :: "env \<Rightarrow> scanner \<Rightarrow> string \<Rightarrow> scanner" where
  "scanLine e st line =
     (let trimmed = trim line; pats = patternsSoFar st in
      if trimmed = [] \<or> prefix ''#'' trimmed then st
      else if trimmed = ''commands:'' then st\<lparr>currentSection := ''commands''\<rparr>
      else if trimmed = ''paths:'' then st\<lparr>currentSection := ''paths''\<rparr>
      else if endsWith trimmed '':'' \<and> \<not> prefix ''-'' trimmed
        then st\<lparr>currentSubSection := trim (butlast trimmed)\<rparr>
      else if prefix ''- '' trimmed then
        (let v = stripQuotes (drop 2 trimmed) in
         if currentSection st = ''commands'' then
           (case RegExp e v of
              None \<Rightarrow> st
            | Some r \<Rightarrow>
                (let compiled = \<lparr>regex = r, source = v\<rparr> in
                 if currentSubSection st = ''block''
                   then st\<lparr>patternsSoFar := pats\<lparr>commands_block := commands_block pats @ [compiled]\<rparr>\<rparr>
                 else if currentSubSection st = ''confirm''
                   then st\<lparr>patternsSoFar := pats\<lparr>commands_confirm := commands_confirm pats @ [compiled]\<rparr>\<rparr>
                 else st))
         else if currentSection st = ''paths'' then
           (if currentSubSection st = ''zeroAccess''
              then st\<lparr>patternsSoFar := pats\<lparr>paths_zeroAccess := paths_zeroAccess pats @ [expandPath (HOME e) v]\<rparr>\<rparr>
            else if currentSubSection st = ''confirmWrite''
              then st\<lparr>patternsSoFar := pats\<lparr>paths_confirmWrite := paths_confirmWrite pats @ [v]\<rparr>\<rparr>
            else st)
         else st)
      else st)"

text \<open>
  \<open>loadPatterns\<close>: an absent file is an empty rule set, a failure while reading is
  \<open>null\<close> (\<open>None\<close>), and a text is scanned line by line.
\<close>

definition loadPatterns :: "env \<Rightarrow> SecurityPatterns option" where
  "loadPatterns e =
     (case patternsFile e of
        Absent \<Rightarrow> Some noPatterns
      | Unreadable \<Rightarrow> None
      | Contents content \<Rightarrow>
          Some (patternsSoFar (foldl (scanLine e)
            \<lparr>currentSection = [], currentSubSection = [], patternsSoFar = noPatterns\<rparr>
            (split (CHR 0x0A) content))))"

section \<open>The security decision engine\<close>

text \<open>The loop over the protected paths in \<open>commandReferencesProtectedPath\<close>.\<close>

fun referencesAny :: "env \<Rightarrow> string \<Rightarrow> string list \<Rightarrow> bool" where
  "referencesAny e normalized [] = False"
| "referencesAny e normalized (protectedPath # rest) =
     (let expandedProtected = resolve (cwd e) (expandPath (HOME e) protectedPath) in
      if includes_str normalized expandedProtected then True
      else
        (let home = resolve (cwd e) (expandPath (HOME e) ''~'') in
         if prefix home expandedProtected then
           (let suffix = drop (length home) expandedProtected in
            if suffix \<noteq> [] \<and> includes_str normalized (CHR ''~'' # suffix) then True
            else referencesAny e normalized rest)
         else referencesAny e normalized rest))"

definition commandReferencesProtectedPath :: "env \<Rightarrow> string \<Rightarrow> string list \<Rightarrow> bool" where
  "commandReferencesProtectedPath e command protectedPaths =
     referencesAny e (normalizeHomeTokens command) protectedPaths"

text \<open>
  The message of a decision, by its template:
  \<^item> \<open>LoadFailed\<close>: the security patterns failed to load, all operations are blocked;
  \<^item> \<open>NoCommand\<close>: the Bash command is missing or not a string;
  \<^item> \<open>CommandMatches src\<close>: blocked by security policy, the command matches \<open>src\<close>;
  \<^item> \<open>ReferencesProtectedPath\<close>: the command references a protected path;
  \<^item> \<open>ConfirmCommand src\<close>: security check, the command matches \<open>src\<close>, proceed?
  \<^item> \<open>InProtectedPath p\<close>: \<open>p\<close> is in a protected path;
  \<^item> \<open>ConfirmWriting p\<close>: security check, writing to \<open>p\<close>, proceed?
\<close>

datatype message =
    LoadFailed
  | NoCommand
  | CommandMatches string
  | ReferencesProtectedPath
  | ConfirmCommand string
  | InProtectedPath string
  | ConfirmWriting string

text \<open>
  What is printed on standard output: \<open>{continue: true}\<close>, or a decision \<open>block\<close> or
  \<open>ask\<close> with its message.
\<close>

datatype reply = Continue | Block message | Ask message

record outcome =
  stdout :: "reply option"
  exitCode :: nat

definition exitWith :: "reply \<Rightarrow> outcome" where
  "exitWith r = \<lparr>stdout = Some r, exitCode = 0\<rparr>"

text \<open>A loop over compiled patterns that leaves at the first one matching.\<close>

fun firstMatch :: "CompiledPattern list \<Rightarrow> string \<Rightarrow> CompiledPattern option" where
  "firstMatch [] s = None"
| "firstMatch (p # ps) s = (if regex p s then Some p else firstMatch ps s)"

text \<open>The file-path part of \<open>main\<close>, reached by every tool that was not answered before.\<close>

definition checkFilePath :: "env \<Rightarrow> HookInput \<Rightarrow> SecurityPatterns \<Rightarrow> outcome" where
  "checkFilePath e input pats =
     (case extractPath (tool_input input) of
        None \<Rightarrow> exitWith Continue
      | Some filePath \<Rightarrow>
          if filePath = [] then exitWith Continue
          else
            (let expanded = resolve (cwd e) (expandPath (HOME e) filePath) in
             if list_ex (\<lambda>protected_path. prefix (resolve (cwd e) protected_path) expanded)
                  (paths_zeroAccess pats)
               then exitWith (Block (InProtectedPath filePath))
             else if (tool_name input = ''Write'' \<or> tool_name input = ''Edit'')
                  \<and> list_ex (\<lambda>confirmPath. includes_str expanded confirmPath) (paths_confirmWrite pats)
               then exitWith (Ask (ConfirmWriting filePath))
             else exitWith Continue))"

text \<open>
  \<open>main\<close> of the security validator. Writing to the log (standard error) is not part of
  the outcome.
\<close>

definition validatorMain :: "env \<Rightarrow> json \<Rightarrow> outcome" where
  "validatorMain e raw =
     (case validateInput raw of
        None \<Rightarrow> \<lparr>stdout = None, exitCode = 2\<rparr>
      | Some input \<Rightarrow>
          (case loadPatterns e of
             None \<Rightarrow> exitWith (Block LoadFailed)
           | Some pats \<Rightarrow>
               if tool_name input = ''Bash'' then
                 (case extractCommand (tool_input input) of
                    None \<Rightarrow> exitWith (Block NoCommand)
                  | Some cmd \<Rightarrow>
                      if cmd = [] then exitWith (Block NoCommand)
                      else
                        (let cmdForPolicy = normalizeHomeTokens cmd in
                         case firstMatch (commands_block pats) cmdForPolicy of
                           Some p \<Rightarrow> exitWith (Block (CommandMatches (source p)))
                         | None \<Rightarrow>
                             if commandReferencesProtectedPath e cmdForPolicy (paths_zeroAccess pats)
                               then exitWith (Block ReferencesProtectedPath)
                             else
                               (case firstMatch (commands_confirm pats) cmdForPolicy of
                                  Some p \<Rightarrow> exitWith (Ask (ConfirmCommand (source p)))
                                | None \<Rightarrow> checkFilePath e input pats)))
               else checkFilePath e input pats))"

section \<open>A small installation, for evaluating the engine on concrete events\<close>

text \<open>
  A regular-expression engine for sources without metacharacters: such a pattern matches
  an input exactly when its text occurs in it.
\<close>

definition literalRegExp :: "string \<Rightarrow> (string \<Rightarrow> bool) option" where
  "literalRegExp src = Some (\<lambda>s. includes_str s src)"

definition textOfLines :: "string list \<Rightarrow> string" where
  "textOfLines ls = concat (map (\<lambda>l. l @ [CHR 0x0A]) ls)"

text \<open>
  A pattern file with one entry in each list: block \<open>rm -rf\<close>, confirm \<open>git push\<close>,
  no access to \<open>~/.ssh\<close>, confirmation before writing \<open>.env\<close>.
\<close>

definition examplePatternsText :: string where
  "examplePatternsText = textOfLines
     [''# security patterns'',
      ''commands:'',
      ''  block:'',
      ''    - '' @ [CHR 0x22] @ ''rm -rf'' @ [CHR 0x22],
      ''  confirm:'',
      ''    - '' @ [CHR 0x22] @ ''git push'' @ [CHR 0x22],
      ''paths:'',
      ''  zeroAccess:'',
      ''    - ~/.ssh'',
      ''  confirmWrite:'',
      ''    - .env'']"

definition exampleEnv :: env where
  "exampleEnv = \<lparr>HOME = ''/home/u'', cwd = ''/work'',
     patternsFile = Contents examplePatternsText, RegExp = literalRegExp\<rparr>"


definition examplePatterns :: SecurityPatterns where
  "examplePatterns =
     \<lparr>commands_block = [\<lparr>regex = (\<lambda>s. includes_str s ''rm -rf''), source = ''rm -rf''\<rparr>],
      commands_confirm = [\<lparr>regex = (\<lambda>s. includes_str s ''git push''), source = ''git push''\<rparr>],
      paths_zeroAccess = [''/home/u/.ssh''],
      paths_confirmWrite = [''.env'']\<rparr>"

definition toolEvent :: "string \<Rightarrow> (string \<times> json) list \<Rightarrow> json" where
  "toolEvent name input =
     JObj [(''tool_name'', JStr name), (''tool_input'', JObj input), (''session_id'', JStr ''s1'')]"

section \<open>Numbers of the activation scorer\<close>

text \<open>
  A number read from the rule file is finite and kept exactly (a rational); the rounding
  of the machine's doubles is not modelled. A division by zero gives one of the three
  values that are not finite, as in the source.
\<close>

datatype number = Finite rat | PosInf | NegInf | NaN

text \<open>\<open>a / b\<close> for finite operands; a zero divisor here is a sum that starts at \<open>0\<close>, so \<open>+0\<close>.\<close>

definition jsDivide :: "rat \<Rightarrow> rat \<Rightarrow> number" where
  "jsDivide a b =
     (if b \<noteq> 0 then Finite (a / b)
      else if 0 < a then PosInf else if a < 0 then NegInf else NaN)"

text \<open>\<open>x * r\<close> for a finite \<open>r\<close>.\<close>

fun jsTimes :: "number \<Rightarrow> rat \<Rightarrow> number" where
  "jsTimes (Finite a) r = Finite (a * r)"
| "jsTimes NaN r = NaN"
| "jsTimes PosInf r = (if 0 < r then PosInf else if r < 0 then NegInf else NaN)"
| "jsTimes NegInf r = (if 0 < r then NegInf else if r < 0 then PosInf else NaN)"

text \<open>\<open>x < r\<close> for a finite \<open>r\<close>; every comparison with \<open>NaN\<close> is false.\<close>

fun jsLess :: "number \<Rightarrow> rat \<Rightarrow> bool" where
  "jsLess (Finite a) r = (a < r)"
| "jsLess NegInf r = True"
| "jsLess PosInf r = False"
| "jsLess NaN r = False"

text \<open>\<open>x - y\<close>\<close>

fun jsMinus :: "number \<Rightarrow> number \<Rightarrow> number" where
  "jsMinus (Finite a) (Finite b) = Finite (a - b)"
| "jsMinus NaN y = NaN"
| "jsMinus x NaN = NaN"
| "jsMinus PosInf PosInf = NaN"
| "jsMinus NegInf NegInf = NaN"
| "jsMinus PosInf y = PosInf"
| "jsMinus NegInf y = NegInf"
| "jsMinus (Finite a) PosInf = NegInf"
| "jsMinus (Finite a) NegInf = PosInf"

fun jsPositive :: "number \<Rightarrow> bool" where
  "jsPositive (Finite a) = (0 < a)"
| "jsPositive PosInf = True"
| "jsPositive _ = False"

section \<open>Activation rules\<close>

record Weights =
  keyword :: rat
  pattern :: rat
  directory :: rat
  intent :: rat
  filePath :: rat
  content :: rat

text \<open>\<open>Partial<Weights>\<close>: each member may be missing; a rule without \<open>weights\<close> has none.\<close>

record PartialWeights =
  keyword_opt :: "rat option"
  pattern_opt :: "rat option"
  directory_opt :: "rat option"
  intent_opt :: "rat option"
  filePath_opt :: "rat option"
  content_opt :: "rat option"

text \<open>
  The trigger lists (\<open>keywords'\<close> is the member \<open>keywords\<close>). The scorer reads a list only
  through \<open>list?.length\<close>, which does not tell a missing list from an empty one: both are
  the empty list here.
\<close>

record Triggers =
  keywords' :: "string list"
  patterns :: "string list"
  fileTypes :: "string list"
  directories :: "string list"
  intents :: "string list"
  contentPatterns :: "string list"

datatype ruleType = Proactive | Reactive | Guard

datatype enforcement = Suggest | Inject | Require

record Rule =
  skill :: string
  type :: ruleType
  enforcement :: enforcement
  priority :: "rat option"
  triggers :: Triggers
  weights :: PartialWeights
  threshold :: "rat option"
  suggestion :: string
  cooldown :: "rat option"

record SkillRules =
  version :: string
  defaults_weights :: Weights
  defaults_threshold :: rat
  rules :: "Rule list"
  exclusions_prefixes :: "string list"
  exclusions_patterns :: "string list"
  settings_maxSuggestions :: int
  settings_showScores :: bool

record ScoredMatch =
  rule :: Rule
  normalizedScore :: number
  finalScore :: number

text \<open>
  The surroundings of one run of the evaluator: the working directory, the rule file and
  \<open>JSON.parse\<close> on its text (\<open>None\<close> when it raises; a text that parses is taken to have
  the shape of \<open>SkillRules\<close>), the \<open>SKILL.md\<close> file of each skill, the constructor
  \<open>new RegExp(source, 'i')\<close> (\<open>None\<close> when it raises), \<open>toLowerCase\<close>, \<open>toFixed(0)\<close>, and
  the clock: \<open>now k\<close> is what the \<open>k\<close>-th reading of \<open>Date.now()\<close> since the process
  started returns.
\<close>

record host =
  processCwd :: string
  rulesFile :: fileState
  parseRules :: "string \<Rightarrow> SkillRules option"
  skillFile :: "string \<Rightarrow> fileState"
  RegExpI :: "string \<Rightarrow> (string \<Rightarrow> bool) option"
  toLowerCase :: "string \<Rightarrow> string"
  toFixed0 :: "number \<Rightarrow> string"
  now :: "nat \<Rightarrow> int"

text \<open>
  The state of the process: the cooldown table and the number of clock readings made.
\<close>

record process =
  cooldownMap :: "string \<rightharpoonup> int"
  readings :: nat

section \<open>Cooldown tracking\<close>

definition isOnCooldown :: "host \<Rightarrow> process \<Rightarrow> string \<Rightarrow> rat \<Rightarrow> bool \<times> process" where
  "isOnCooldown h st sk cooldownSeconds =
     (case cooldownMap st sk of
        None \<Rightarrow> (False, st)
      | Some lastFired \<Rightarrow>
          if lastFired = 0 then (False, st)
          else (of_int (now h (readings st) - lastFired) < cooldownSeconds * 1000,
                st\<lparr>readings := Suc (readings st)\<rparr>))"

definition recordFire :: "host \<Rightarrow> process \<Rightarrow> string \<Rightarrow> process" where
  "recordFire h st sk =
     st\<lparr>cooldownMap := (cooldownMap st)(sk \<mapsto> now h (readings st)), readings := Suc (readings st)\<rparr>"

section \<open>The scoring engine\<close>

text \<open>A function either returns a value or raises an exception.\<close>

datatype 'a attempt = Raised | Returned 'a

text \<open>The characters \<open>.*+?^${}()|[]\\<close> that \<open>escapeRegex\<close> puts a backslash before.\<close>

definition isRegexSpecial :: "char \<Rightarrow> bool" where
  "isRegexSpecial c =
     ((of_char c :: nat) \<in> {46, 42, 43, 63, 94, 36, 123, 125, 40, 41, 124, 91, 93, 92})"

fun escapeRegex :: "string \<Rightarrow> string" where
  "escapeRegex [] = []"
| "escapeRegex (c # cs) =
     (if isRegexSpecial c then CHR 0x5C # c # escapeRegex cs else c # escapeRegex cs)"

text \<open>The source \<open>\bkw\b\<close> built for a keyword.\<close>

definition wholeWord :: "string \<Rightarrow> string" where
  "wholeWord kw = [CHR 0x5C, CHR ''b''] @ escapeRegex kw @ [CHR 0x5C, CHR ''b'']"

text \<open>
  The loop of \<open>matchKeywords\<close>, on the lowered prompt. The constructor is not guarded
  here, so its exception leaves the function.
\<close>

fun countKeywords :: "host \<Rightarrow> string \<Rightarrow> string list \<Rightarrow> nat attempt" where
  "countKeywords h lower [] = Returned 0"
| "countKeywords h lower (kw # kws) =
     (case RegExpI h (wholeWord kw) of
        None \<Rightarrow> Raised
      | Some test \<Rightarrow>
          (case countKeywords h lower kws of
             Raised \<Rightarrow> Raised
           | Returned n \<Rightarrow> Returned (if test lower then Suc n else n)))"

definition matchKeywords :: "host \<Rightarrow> string \<Rightarrow> string list \<Rightarrow> nat attempt" where
  "matchKeywords h prompt kws = countKeywords h (toLowerCase h prompt) kws"

text \<open>\<open>matchPatterns\<close>: a pattern that does not compile is skipped.\<close>

definition matchPatterns :: "host \<Rightarrow> string \<Rightarrow> string list \<Rightarrow> nat" where
  "matchPatterns h prompt pats =
     length (filter (\<lambda>pat. case RegExpI h pat of None \<Rightarrow> False | Some test \<Rightarrow> test prompt) pats)"

definition matchDirectories :: "string \<Rightarrow> string list \<Rightarrow> nat" where
  "matchDirectories dir dirs = length (filter (\<lambda>d. includes_str dir d) dirs)"

text \<open>The table \<open>intentKeywords\<close>.\<close>

definition intentKeywords :: "(string \<times> string list) list" where
  "intentKeywords =
     [(''debug'', [''bug'', ''error'', ''fix'', ''broken'', ''crash'', ''fail'', ''debug'', ''issue'']),
      (''create'', [''create'', ''new'', ''add'', ''build'', ''scaffold'', ''generate'', ''init'']),
      (''deploy'', [''deploy'', ''ship'', ''release'', ''publish'', ''push'', ''launch'']),
      (''test'', [''test'', ''spec'', ''coverage'', ''assert'', ''expect'', ''tdd'']),
      (''refactor'', [''refactor'', ''clean'', ''reorganize'', ''restructure'', ''simplify'']),
      (''research'', [''research'', ''investigate'', ''explore'', ''understand'', ''analyze'']),
      (''review'', [''review'', ''feedback'', ''check'', ''audit'', ''inspect'']),
      (''extend'', [''extend'', ''plugin'', ''hook'', ''skill'', ''customize'', ''configure'']),
      (''capture'', [''note'', ''capture'', ''remember'', ''save'', ''jot'', ''log'', ''record''])]"

text \<open>
  The table is a plain object, so a label that names a member every object inherits finds
  that member instead of a word list, and iterating over it raises.
\<close>

definition inheritedMembers :: "string list" where
  "inheritedMembers =
     [''constructor'', ''hasOwnProperty'', ''isPrototypeOf'', ''propertyIsEnumerable'',
      ''toLocaleString'', ''toString'', ''valueOf'', ''__proto__'', ''__defineGetter__'',
      ''__defineSetter__'', ''__lookupGetter__'', ''__lookupSetter__'']"

fun countIntents :: "string \<Rightarrow> string list \<Rightarrow> nat attempt" where
  "countIntents lower [] = Returned 0"
| "countIntents lower (i # is) =
     (case map_of intentKeywords i of
        None \<Rightarrow> (if i \<in> set inheritedMembers then Raised else countIntents lower is)
      | Some family \<Rightarrow>
          (case countIntents lower is of
             Raised \<Rightarrow> Raised
           | Returned n \<Rightarrow>
               Returned (if list_ex (\<lambda>word. includes_str lower word) family then Suc n else n)))"

definition matchIntents :: "host \<Rightarrow> string \<Rightarrow> string list \<Rightarrow> nat attempt" where
  "matchIntents h prompt is = countIntents (toLowerCase h prompt) is"

definition matchFileTypes :: "string \<Rightarrow> string list \<Rightarrow> nat" where
  "matchFileTypes prompt fts = length (filter (\<lambda>ft. includes_str prompt ft) fts)"

text \<open>\<open>{ ...defaultWeights, ...rule.weights }\<close>\<close>

definition mergeWeights :: "Weights \<Rightarrow> PartialWeights \<Rightarrow> Weights" where
  "mergeWeights d r =
     \<lparr>keyword = (case keyword_opt r of Some v \<Rightarrow> v | None \<Rightarrow> keyword d),
      pattern = (case pattern_opt r of Some v \<Rightarrow> v | None \<Rightarrow> pattern d),
      directory = (case directory_opt r of Some v \<Rightarrow> v | None \<Rightarrow> directory d),
      intent = (case intent_opt r of Some v \<Rightarrow> v | None \<Rightarrow> intent d),
      filePath = (case filePath_opt r of Some v \<Rightarrow> v | None \<Rightarrow> filePath d),
      content = (case content_opt r of Some v \<Rightarrow> v | None \<Rightarrow> content d)\<rparr>"

text \<open>An entry of \<open>dims\<close> (\<open>total'\<close> is the member \<open>total\<close>).\<close>

record dimension =
  count :: nat
  total' :: nat
  weight :: rat

text \<open>
  The list \<open>dims\<close> that \<open>scoreRule\<close> builds: one entry for each trigger list that is not
  empty, in the order keywords, patterns, directories, intents, file types. Only the
  keyword and the intent count can raise, so these two are taken first; the list keeps
  the order of the source.
\<close>

definition dimensions :: "host \<Rightarrow> string \<Rightarrow> Rule \<Rightarrow> Weights \<Rightarrow> dimension list attempt" where
  "dimensions h prompt r defaultWeights =
     (let w = mergeWeights defaultWeights (weights r); t = triggers r in
      case (if keywords' t = [] then Returned []
            else case matchKeywords h prompt (keywords' t) of
                   Raised \<Rightarrow> Raised
                 | Returned n \<Rightarrow> Returned [\<lparr>count = n, total' = length (keywords' t), weight = keyword w\<rparr>]) of
        Raised \<Rightarrow> Raised
      | Returned kd \<Rightarrow>
          (case (if intents t = [] then Returned []
                 else case matchIntents h prompt (intents t) of
                        Raised \<Rightarrow> Raised
                      | Returned n \<Rightarrow> Returned [\<lparr>count = n, total' = length (intents t), weight = intent w\<rparr>]) of
             Raised \<Rightarrow> Raised
           | Returned idim \<Rightarrow>
               Returned
                 (kd
                  @ (if patterns t = [] then []
                     else [\<lparr>count = matchPatterns h prompt (patterns t), total' = length (patterns t),
                            weight = pattern w\<rparr>])
                  @ (if directories t = [] then []
                     else [\<lparr>count = matchDirectories (processCwd h) (directories t),
                            total' = length (directories t), weight = directory w\<rparr>])
                  @ idim
                  @ (if fileTypes t = [] then []
                     else [\<lparr>count = matchFileTypes prompt (fileTypes t), total' = length (fileTypes t),
                            weight = filePath w\<rparr>]))))"

text \<open>The three ways \<open>scoreRule\<close> ends: an exception, \<open>null\<close>, or a scored match.\<close>

datatype scored = Raises | Null | Match ScoredMatch

definition scoreRule :: "host \<Rightarrow> string \<Rightarrow> Rule \<Rightarrow> Weights \<Rightarrow> rat \<Rightarrow> scored" where
  "scoreRule h prompt r defaultWeights defaultThreshold =
     (let thr = (case threshold r of Some t \<Rightarrow> t | None \<Rightarrow> defaultThreshold) in
      case dimensions h prompt r defaultWeights of
        Raised \<Rightarrow> Raises
      | Returned dims \<Rightarrow>
          if length dims = 0 then Null
          else
            (let totalMatches = foldl (\<lambda>s d. s + count d) 0 dims in
             if totalMatches = 0 then Null
             else
               (let rawScore = foldl (\<lambda>s d. s + of_nat (count d) * weight d) 0 dims;
                    maxScore = foldl (\<lambda>s d. s + of_nat (total' d) * weight d) 0 dims;
                    normalized = jsTimes (jsDivide rawScore maxScore) 100
                in if jsLess normalized thr then Null
                   else
                     (let pri = (case priority r of Some p \<Rightarrow> p | None \<Rightarrow> 5) in
                      Match \<lparr>rule = r, normalizedScore = normalized,
                             finalScore = jsTimes normalized (pri / 10)\<rparr>))))"

section \<open>Exclusions\<close>

definition isExcluded :: "host \<Rightarrow> string \<Rightarrow> string list \<Rightarrow> string list \<Rightarrow> bool" where
  "isExcluded h prompt prefs pats =
     (let trimmed = toLowerCase h (trim prompt) in
      list_ex (\<lambda>p. prefix (toLowerCase h p) trimmed) prefs
      \<or> list_ex (\<lambda>pat. case RegExpI h pat of None \<Rightarrow> False | Some test \<Rightarrow> test trimmed) pats)"

section \<open>The skill context loader\<close>

definition loadSkillContext :: "host \<Rightarrow> string \<Rightarrow> string option" where
  "loadSkillContext h skillName =
     (case skillFile h skillName of Contents text \<Rightarrow> Some text | _ \<Rightarrow> None)"

section \<open>The evaluator's main\<close>

text \<open>
  The prompt of the payload. A prompt that is missing or falsy ends the run at once; one
  that is truthy but no string makes \<open>prompt.trim()\<close> raise later. Both runs end alike
  (status 0, nothing printed, no cooldown written), so both are \<open>None\<close> here.
\<close>

definition promptOf :: "json \<Rightarrow> string option" where
  "promptOf raw =
     (case property raw ''prompt'' of
        Some (JStr s) \<Rightarrow> if s = [] then None else Some s
      | _ \<Rightarrow> None)"

text \<open>
  The loop over the rules that fills \<open>matches\<close>. Only the clock readings change the state
  here.
\<close>

fun collect ::
  "host \<Rightarrow> string \<Rightarrow> Weights \<Rightarrow> rat \<Rightarrow> Rule list \<Rightarrow> process \<Rightarrow> (ScoredMatch list \<times> process) attempt"
where
  "collect h prompt w t [] st = Returned ([], st)"
| "collect h prompt w t (r # rest) st =
     (if type r \<noteq> Proactive then collect h prompt w t rest st
      else
        (let (onCooldown, st1) =
               (case cooldown r of
                  None \<Rightarrow> (False, st)
                | Some c \<Rightarrow> if c = 0 then (False, st) else isOnCooldown h st (skill r) c)
         in if onCooldown then collect h prompt w t rest st1
            else
              (case scoreRule h prompt r w t of
                 Raises \<Rightarrow> Raised
               | Null \<Rightarrow> collect h prompt w t rest st1
               | Match m \<Rightarrow>
                   (case collect h prompt w t rest st1 of
                      Raised \<Rightarrow> Raised
                    | Returned (ms, st2) \<Rightarrow> Returned (m # ms, st2)))))"

text \<open>
  \<open>matches.sort((a, b) => b.finalScore - a.finalScore)\<close>. The sort is stable: a later
  match moves in front of an earlier one only where the comparison asks for it. (Where
  the comparison is not an ordering, which takes a score that is \<open>NaN\<close>, the language
  leaves the order to the implementation; this is then one such order.)
\<close>

definition comparator :: "ScoredMatch \<Rightarrow> ScoredMatch \<Rightarrow> number" where
  "comparator a b = jsMinus (finalScore b) (finalScore a)"

fun insertMatch :: "ScoredMatch \<Rightarrow> ScoredMatch list \<Rightarrow> ScoredMatch list" where
  "insertMatch a [] = [a]"
| "insertMatch a (b # bs) =
     (if jsPositive (comparator a b) then b # insertMatch a bs else a # b # bs)"

definition sortMatches :: "ScoredMatch list \<Rightarrow> ScoredMatch list" where
  "sortMatches ms = foldr insertMatch ms []"

text \<open>\<open>xs.slice(0, n)\<close> for an integer \<open>n\<close>; a negative \<open>n\<close> counts from the end.\<close>

definition slice0 :: "'a list \<Rightarrow> int \<Rightarrow> 'a list" where
  "slice0 xs n = (if n < 0 then take (nat (int (length xs) + n)) xs else take (nat n) xs)"

text \<open>
  The run up to the list \<open>top\<close>: \<open>None\<close> where the run ends before (no usable prompt, no
  rule file or one that does not load, an excluded prompt, an exception, no match).
\<close>

definition ranked :: "host \<Rightarrow> process \<Rightarrow> json \<Rightarrow> (SkillRules \<times> ScoredMatch list \<times> process) option" where
  "ranked h st raw =
     (case promptOf raw of
        None \<Rightarrow> None
      | Some prompt \<Rightarrow>
          (case rulesFile h of
             Absent \<Rightarrow> None
           | Unreadable \<Rightarrow> None
           | Contents text \<Rightarrow>
               (case parseRules h text of
                  None \<Rightarrow> None
                | Some rs \<Rightarrow>
                    if isExcluded h prompt (exclusions_prefixes rs) (exclusions_patterns rs) then None
                    else
                      (case collect h prompt (defaults_weights rs) (defaults_threshold rs) (rules rs) st of
                         Raised \<Rightarrow> None
                       | Returned (matches, st1) \<Rightarrow>
                           if length matches = 0 then None
                           else Some (rs, slice0 (sortMatches matches) (settings_maxSuggestions rs), st1)))))"

text \<open>One turn of the loop over \<open>top\<close>: the skill is recorded as fired and its part is built.\<close>

definition scoreStr :: "host \<Rightarrow> SkillRules \<Rightarrow> ScoredMatch \<Rightarrow> string" where
  "scoreStr h rs m =
     (if settings_showScores rs then '' [score: '' @ toFixed0 h (normalizedScore m) @ '']'' else [])"

definition part :: "host \<Rightarrow> SkillRules \<Rightarrow> ScoredMatch \<Rightarrow> string" where
  "part h rs m =
     (case enforcement (rule m) of
        Inject \<Rightarrow>
          (case loadSkillContext h (skill (rule m)) of
             Some (c # cs) \<Rightarrow>
               ''--- Auto-loaded skill: '' @ skill (rule m) @ scoreStr h rs m @ '' ---'' @ [CHR 0x0A] @ (c # cs)
           | _ \<Rightarrow> ''Skill suggestion: '' @ suggestion (rule m) @ scoreStr h rs m)
      | Require \<Rightarrow>
          ''REQUIRED: '' @ suggestion (rule m) @ scoreStr h rs m @ [CHR 0x0A]
            @ ''Please acknowledge before proceeding.''
      | Suggest \<Rightarrow> ''Skill suggestion: '' @ suggestion (rule m) @ scoreStr h rs m)"

fun emit :: "host \<Rightarrow> SkillRules \<Rightarrow> ScoredMatch list \<Rightarrow> process \<Rightarrow> string list \<times> process" where
  "emit h rs [] st = ([], st)"
| "emit h rs (m # ms) st =
     (let st1 = recordFire h st (skill (rule m));
          (ps, st2) = emit h rs ms st1
      in (part h rs m # ps, st2))"

text \<open>\<open>parts.join('\n\n')\<close>\<close>

fun joinParts :: "string list \<Rightarrow> string" where
  "joinParts [] = []"
| "joinParts [p] = p"
| "joinParts (p # ps) = p @ [CHR 0x0A, CHR 0x0A] @ joinParts ps"

text \<open>
  What a run of the evaluator leaves: the text printed (if any), the exit status, and
  the cooldown table.
\<close>

record evaluation =
  printed :: "string option"
  status :: nat
  cooldowns :: "string \<rightharpoonup> int"

definition skillEvalMain :: "host \<Rightarrow> process \<Rightarrow> json \<Rightarrow> evaluation" where
  "skillEvalMain h st raw =
     (case ranked h st raw of
        None \<Rightarrow> \<lparr>printed = None, status = 0, cooldowns = cooldownMap st\<rparr>
      | Some (rs, emitted, st1) \<Rightarrow>
          (let (parts, st2) = emit h rs emitted st1 in
           \<lparr>printed =
              (if length parts > 0
               then Some (''<system-reminder>'' @ [CHR 0x0A] @ joinParts parts @ [CHR 0x0A]
                          @ ''</system-reminder>'')
               else None),
            status = 0, cooldowns = cooldownMap st2\<rparr>))"

section \<open>A small rule file, for evaluating the scorer on concrete prompts\<close>

definition asciiLower :: "string \<Rightarrow> string" where
  "asciiLower s =
     map (\<lambda>c. if 65 \<le> (of_char c :: nat) \<and> (of_char c :: nat) \<le> 90
              then char_of ((of_char c :: nat) + 32) else c) s"

text \<open>A search for \<open>w\<close> as a whole word; \<open>prev\<close> tells whether a word character precedes.\<close>

fun findWord :: "bool \<Rightarrow> string \<Rightarrow> string \<Rightarrow> bool" where
  "findWord prev w [] = False"
| "findWord prev w (c # cs) =
     ((\<not> prev \<and> prefix w (c # cs) \<and> wordEnds (drop (length w) (c # cs)))
      \<or> findWord (isWordChar c) w cs)"

text \<open>
  A case-insensitive engine for two shapes of source over ASCII text: \<open>\bword\b\<close> with a
  word of letters, digits and underscores, which matches the word standing alone, and a
  text of such characters and blanks, which matches where it occurs. It knows no other
  source.
\<close>

definition exampleRegExpI :: "string \<Rightarrow> (string \<Rightarrow> bool) option" where
  "exampleRegExpI src =
     (if src \<noteq> [] \<and> list_all (\<lambda>c. isWordChar c \<or> c = CHR '' '') src
        then Some (\<lambda>s. includes_str (asciiLower s) (asciiLower src))
      else if 4 < length src \<and> take 2 src = [CHR 0x5C, CHR ''b'']
              \<and> drop (length src - 2) src = [CHR 0x5C, CHR ''b'']
              \<and> list_all isWordChar (take (length src - 4) (drop 2 src))
        then Some (\<lambda>s. findWord False (asciiLower (take (length src - 4) (drop 2 src))) (asciiLower s))
      else None)"

definition createSkillRule :: Rule where
  "createSkillRule =
     \<lparr>skill = ''CreateSkill'', type = Proactive, enforcement = Suggest, priority = Some 10,
      triggers = \<lparr>keywords' = [''skill'', ''workflow''], patterns = [], fileTypes = [],
                  directories = [], intents = [''create''], contentPatterns = []\<rparr>,
      weights = \<lparr>keyword_opt = None, pattern_opt = None, directory_opt = None,
                 intent_opt = None, filePath_opt = None, content_opt = None\<rparr>,
      threshold = None, suggestion = ''Use the CreateSkill skill'', cooldown = Some 60\<rparr>"

text \<open>A rule that declares no trigger at all.\<close>

definition idleRule :: Rule where
  "idleRule = createSkillRule\<lparr>skill := ''Idle'', priority := Some 10,
     triggers := \<lparr>keywords' = [], patterns = [], fileTypes = [], directories = [],
                  intents = [], contentPatterns = []\<rparr>,
     threshold := Some 0, cooldown := None\<rparr>"

text \<open>A guard with the triggers of \<open>createSkillRule\<close>.\<close>

definition guardRule :: Rule where
  "guardRule = createSkillRule\<lparr>skill := ''Guarded'', type := Guard, priority := Some 10,
     cooldown := None\<rparr>"

text \<open>A rule for the word \<open>project\<close>, of half the priority.\<close>

definition projectRule :: Rule where
  "projectRule = createSkillRule\<lparr>skill := ''Project'', priority := Some 5,
     suggestion := ''Use the Project skill'',
     triggers := \<lparr>keywords' = [''project''], patterns = [], fileTypes = [], directories = [],
                  intents = [], contentPatterns = []\<rparr>,
     cooldown := None\<rparr>"

definition exampleRules :: SkillRules where
  "exampleRules =
     \<lparr>version = ''1'',
      defaults_weights = \<lparr>keyword = 2, pattern = 3, directory = 1, intent = 4, filePath = 1, content = 1\<rparr>,
      defaults_threshold = 30,
      rules = [idleRule, guardRule, projectRule, createSkillRule],
      exclusions_prefixes = [''/'', ''hello''],
      exclusions_patterns = [],
      settings_maxSuggestions = 1,
      settings_showScores = False\<rparr>"

definition exampleHost :: host where
  "exampleHost =
     \<lparr>processCwd = ''/work'', rulesFile = Contents ''{}'',
      parseRules = (\<lambda>text. Some exampleRules),
      skillFile = (\<lambda>name. Absent),
      RegExpI = exampleRegExpI, toLowerCase = asciiLower,
      toFixed0 = (\<lambda>n. ''?''), now = (\<lambda>k. 1000000)\<rparr>"

definition freshProcess :: process where
  "freshProcess = \<lparr>cooldownMap = Map.empty, readings = 0\<rparr>"


definition promptEvent :: "string \<Rightarrow> json" where
  "promptEvent p = JObj [(''prompt'', JStr p), (''session_id'', JStr ''s1'')]"

section \<open>Shared facts\<close>

lemma main_invalid: "validateInput raw = None \<Longrightarrow> validatorMain e raw = \<lparr>stdout = None, exitCode = 2\<rparr>"
  by (simp add: validatorMain_def)


text \<open>The line scanner takes every text: only a failure while reading makes the load fail.\<close>

lemma loadPatterns_of_text: "patternsFile e = Contents text \<Longrightarrow> loadPatterns e \<noteq> None"
  by (simp add: loadPatterns_def)

lemma valid_toolEvent:
  "validateInput (toolEvent n i) = Some \<lparr>tool_name = n, tool_input = JObj i, session_id = ''s1''\<rparr>"
  by (simp add: validateInput_def toolEvent_def)

lemma example_loads: "loadPatterns exampleEnv = Some examplePatterns"
  by (simp add: loadPatterns_def exampleEnv_def examplePatternsText_def textOfLines_def
      scanLine_def trim_def isSpace_def endsWith_def stripQuotes_def isQuote_def literalRegExp_def
      noPatterns_def examplePatterns_def expandPath_def replaceLeading_def Let_def)

lemma exampleEnv_dirs: "HOME exampleEnv = ''/home/u''" "cwd exampleEnv = ''/work''"
  by (simp_all add: exampleEnv_def)

lemma examplePatterns_paths:
  "paths_zeroAccess examplePatterns = [''/home/u/.ssh'']"
  "paths_confirmWrite examplePatterns = [''.env'']"
  by (simp_all add: examplePatterns_def)

lemma examplePatterns_commands:
  "commands_block examplePatterns = [\<lparr>regex = (\<lambda>s. includes_str s ''rm -rf''), source = ''rm -rf''\<rparr>]"
  "commands_confirm examplePatterns = [\<lparr>regex = (\<lambda>s. includes_str s ''git push''), source = ''git push''\<rparr>]"
  by (simp_all add: examplePatterns_def)

text \<open>
  Cases of the repository's test suite, run on the small installation: a command without
  a matching rule is allowed, a credential read through the braced home token is blocked,
  and an edit of a \<open>.env\<close> file asks for confirmation.
\<close>

lemma test_safe_command_allowed:
  "validatorMain exampleEnv (toolEvent ''Bash'' [(''command'', JStr ''ls -la'')])
     = \<lparr>stdout = Some Continue, exitCode = 0\<rparr>"
  by (simp add: validatorMain_def valid_toolEvent example_loads extractCommand_def extractPath_def
      normalizeHomeTokens_def examplePatterns_commands examplePatterns_paths exampleEnv_dirs
      commandReferencesProtectedPath_def checkFilePath_def exitWith_def
      resolve_def segments_def render_def expandPath_def replaceLeading_def)

lemma test_braced_home_blocked:
  "validatorMain exampleEnv (toolEvent ''Bash'' [(''command'', JStr ''cat ${HOME}/.ssh/id_rsa'')])
     = \<lparr>stdout = Some (Block ReferencesProtectedPath), exitCode = 0\<rparr>"
  by (simp add: validatorMain_def valid_toolEvent example_loads extractCommand_def
      normalizeHomeTokens_def examplePatterns_commands examplePatterns_paths exampleEnv_dirs
      commandReferencesProtectedPath_def exitWith_def
      resolve_def segments_def render_def expandPath_def replaceLeading_def)

lemma test_edit_env_asks:
  "validatorMain exampleEnv (toolEvent ''Edit'' [(''file_path'', JStr ''/project/.env'')])
     = \<lparr>stdout = Some (Ask (ConfirmWriting ''/project/.env'')), exitCode = 0\<rparr>"
  by (simp add: validatorMain_def valid_toolEvent example_loads extractPath_def
      examplePatterns_paths exampleEnv_dirs checkFilePath_def exitWith_def
      resolve_def segments_def render_def expandPath_def replaceLeading_def)

section \<open>Properties of the text normalizer\<close>

lemma braced_head: "replaceBraced xs = y # ys \<Longrightarrow> y \<noteq> CHR ''~'' \<Longrightarrow> \<exists>xs'. xs = y # xs' \<and> ys = replaceBraced xs'"
  by (cases xs) (auto split: if_splits)
lemma wordEnds_braced: "wordEnds (replaceBraced r) = wordEnds r"
  by (cases r) (auto simp: isWordChar_def)
lemma braced_HOME:
  assumes "prefix ''HOME'' (replaceBraced cs)"
  shows "\<exists>r. cs = ''HOME'' @ r \<and> replaceBraced cs = ''HOME'' @ replaceBraced r"
proof -
  from assms obtain t where t: "replaceBraced cs = CHR ''H'' # CHR ''O'' # CHR ''M'' # CHR ''E'' # t"
    by (auto simp: prefix_def)
  from braced_head [OF t] obtain c1 where c1: "cs = CHR ''H'' # c1" "CHR ''O'' # CHR ''M'' # CHR ''E'' # t = replaceBraced c1"
    by auto
  from braced_head [OF c1(2) [symmetric]] obtain c2 where c2: "c1 = CHR ''O'' # c2" "CHR ''M'' # CHR ''E'' # t = replaceBraced c2"
    by auto
  from braced_head [OF c2(2) [symmetric]] obtain c3 where c3: "c2 = CHR ''M'' # c3" "CHR ''E'' # t = replaceBraced c3"
    by auto
  from braced_head [OF c3(2) [symmetric]] obtain c4 where c4: "c3 = CHR ''E'' # c4" "t = replaceBraced c4"
    by auto
  show ?thesis using c1 c2 c3 c4 by simp
qed

text \<open>
  C5: the text normalizer is a pure function whose result is the input with every
  home-directory token (braced, or bare and ending at a word boundary) replaced by the
  sentinel \<open>~\<close>, every other character kept: the two successive global replacements of
  the code compute exactly the one-pass replacement of the contract.
\<close>

theorem normalizeHomeTokens_replaces_exactly_home_tokens:
  "normalizeHomeTokens s = homeTokensToSentinel s"
proof (induction s rule: homeTokensToSentinel.induct)
  case 1
  show ?case by (simp add: normalizeHomeTokens_def)
next
  case (2 c cs)
  show ?case
  proof (cases "prefix ''${HOME}'' (c # cs)")
    case True
    then have "replaceBraced (c # cs) = CHR ''~'' # replaceBraced (drop 6 cs)" by simp
    then have "replaceBare (replaceBraced (c # cs)) = CHR ''~'' # replaceBare (replaceBraced (drop 6 cs))"
      by simp
    moreover have "homeTokensToSentinel (drop 6 cs) = normalizeHomeTokens (drop 6 cs)"
      using 2(1) True by simp
    ultimately show ?thesis using True by (simp add: normalizeHomeTokens_def)
  next
    case nb: False
    show ?thesis
    proof (cases "prefix ''$HOME'' (c # cs) \<and> wordEnds (drop 4 cs)")
      case True
      then obtain r where r: "cs = ''HOME'' @ r" and c: "c = CHR ''$''"
        by (auto simp: prefix_def)
      have we: "wordEnds r" using True r by simp
      have web: "wordEnds (replaceBraced r)" using we by (simp add: wordEnds_braced)
      have "replaceBraced (''$HOME'' @ r) = ''$HOME'' @ replaceBraced r"
        by simp
      then have lhs: "normalizeHomeTokens (''$HOME'' @ r) = CHR ''~'' # normalizeHomeTokens r"
        using web by (simp add: normalizeHomeTokens_def)
      have rhs: "homeTokensToSentinel (''$HOME'' @ r) = CHR ''~'' # homeTokensToSentinel r"
        using we by simp
      have "normalizeHomeTokens (drop 4 cs) = homeTokensToSentinel (drop 4 cs)"
        using 2(2) nb True by simp
      then have "normalizeHomeTokens r = homeTokensToSentinel r" using r by simp
      with lhs rhs have "normalizeHomeTokens (''$HOME'' @ r) = homeTokensToSentinel (''$HOME'' @ r)"
        by simp
      moreover have "c # cs = ''$HOME'' @ r" using r c by simp
      ultimately show ?thesis by simp
    next
      case False
      have step: "replaceBraced (c # cs) = c # replaceBraced cs"
        using nb by (simp only: replaceBraced.simps if_False)
      have nomatch: "\<not> (prefix ''$HOME'' (c # replaceBraced cs) \<and> wordEnds (drop 4 (replaceBraced cs)))"
      proof
        assume h: "prefix ''$HOME'' (c # replaceBraced cs) \<and> wordEnds (drop 4 (replaceBraced cs))"
        then have c: "c = CHR ''$''" and p: "prefix ''HOME'' (replaceBraced cs)" by auto
        from braced_HOME [OF p] obtain r where r: "cs = ''HOME'' @ r" "replaceBraced cs = ''HOME'' @ replaceBraced r"
          by blast
        from h r have "wordEnds (replaceBraced r)" by simp
        then have "wordEnds r" by (simp add: wordEnds_braced)
        with False c r show False by simp
      qed
      have "replaceBare (c # replaceBraced cs) = c # replaceBare (replaceBraced cs)"
        using nomatch by (simp only: replaceBare.simps if_False)
      then have lhs: "normalizeHomeTokens (c # cs) = c # normalizeHomeTokens cs"
        using step by (simp only: normalizeHomeTokens_def)
      have rhs: "homeTokensToSentinel (c # cs) = c # homeTokensToSentinel cs"
        using nb False by (simp only: homeTokensToSentinel.simps if_False)
      have "normalizeHomeTokens cs = homeTokensToSentinel cs"
        using 2(3) nb False by simp
      with lhs rhs show ?thesis by simp
    qed
  qed
qed

section \<open>Properties of the security decision engine\<close>



lemma validateInput_None_iff:
  "validateInput raw = None \<longleftrightarrow>
     (raw = JNull \<or> \<not> typeofObject raw
      \<or> (\<forall>s. property raw ''tool_name'' \<noteq> Some (JStr s))
      \<or> (\<forall>s. property raw ''session_id'' \<noteq> Some (JStr s))
      \<or> (case property raw ''tool_input'' of None \<Rightarrow> True | Some ti \<Rightarrow> \<not> typeofObject ti \<or> ti = JNull))"
  by (auto simp: validateInput_def split: option.splits json.splits)

text \<open>
  C2 does not hold as the specification states it: a Bash invocation whose command is a number is answered with the
  decision block and the normal exit status 0, not with exit status 2.
\<close>

theorem malformed_command_exits_normally_counterexample:
  "extractCommand (JObj [(''command'', JNum 123)]) = None
   \<and> validatorMain exampleEnv (toolEvent ''Bash'' [(''command'', JNum 123)])
       = \<lparr>stdout = Some (Block NoCommand), exitCode = 0\<rparr>
   \<and> exitCode (validatorMain exampleEnv (toolEvent ''Bash'' [(''command'', JNum 123)])) \<noteq> 2"
  by (simp add: validatorMain_def valid_toolEvent example_loads extractCommand_def exitWith_def)

text \<open>
  C2, amended: a payload that is not an object, or whose \<open>tool_name\<close> or \<open>session_id\<close> is
  missing or not a string, or whose \<open>tool_input\<close> is missing or not an object, ends the
  run with exit status 2 and no decision on standard output; a well-formed Bash invocation
  whose command is missing, not a string or empty is answered with the decision block and
  exit status 0.
\<close>

theorem malformed_input_fails_closed:
  "((raw = JNull \<or> \<not> typeofObject raw
      \<or> (\<forall>s. property raw ''tool_name'' \<noteq> Some (JStr s))
      \<or> (\<forall>s. property raw ''session_id'' \<noteq> Some (JStr s))
      \<or> (case property raw ''tool_input'' of None \<Rightarrow> True | Some ti \<Rightarrow> \<not> typeofObject ti \<or> ti = JNull))
     \<longrightarrow> validatorMain e raw = \<lparr>stdout = None, exitCode = 2\<rparr>)
   \<and> (validateInput raw = Some input \<and> tool_name input = ''Bash''
        \<and> (\<forall>c. extractCommand (tool_input input) = Some c \<longrightarrow> c = [])
     \<longrightarrow> validatorMain e raw = \<lparr>stdout = Some (Block (if patternsFile e = Unreadable then LoadFailed else NoCommand)),
                        exitCode = 0\<rparr>)"
proof (intro conjI impI)
  assume "raw = JNull \<or> \<not> typeofObject raw
      \<or> (\<forall>s. property raw ''tool_name'' \<noteq> Some (JStr s))
      \<or> (\<forall>s. property raw ''session_id'' \<noteq> Some (JStr s))
      \<or> (case property raw ''tool_input'' of None \<Rightarrow> True | Some ti \<Rightarrow> \<not> typeofObject ti \<or> ti = JNull)"
  then have "validateInput raw = None" by (simp only: validateInput_None_iff)
  then show "validatorMain e raw = \<lparr>stdout = None, exitCode = 2\<rparr>" by (rule main_invalid)
next
  assume h: "validateInput raw = Some input \<and> tool_name input = ''Bash''
        \<and> (\<forall>c. extractCommand (tool_input input) = Some c \<longrightarrow> c = [])"
  show "validatorMain e raw = \<lparr>stdout = Some (Block (if patternsFile e = Unreadable then LoadFailed else NoCommand)),
                        exitCode = 0\<rparr>"
  proof (cases "loadPatterns e")
    case None
    then have "patternsFile e = Unreadable" by (simp add: loadPatterns_def split: fileState.splits)
    with None h show ?thesis by (simp add: validatorMain_def exitWith_def)
  next
    case (Some pats)
    then have "patternsFile e \<noteq> Unreadable" by (auto simp: loadPatterns_def)
    with Some h show ?thesis
      by (cases "extractCommand (tool_input input)") (simp_all add: validatorMain_def exitWith_def)
  qed
qed

theorem malformed_input_fails_closed_witness:
  "validatorMain exampleEnv (JObj [(''tool_name'', JStr ''Bash''), (''session_id'', JStr ''s1'')])
     = \<lparr>stdout = None, exitCode = 2\<rparr>
   \<and> validateInput (toolEvent ''Bash'' [(''command'', JArr [JStr ''rm'', JStr ''-rf'', JStr ''/''])])
       = Some \<lparr>tool_name = ''Bash'', tool_input = JObj [(''command'', JArr [JStr ''rm'', JStr ''-rf'', JStr ''/''])], session_id = ''s1''\<rparr>
   \<and> validatorMain exampleEnv (toolEvent ''Bash'' [(''command'', JArr [JStr ''rm'', JStr ''-rf'', JStr ''/''])])
       = \<lparr>stdout = Some (Block NoCommand), exitCode = 0\<rparr>"
  using malformed_input_fails_closed [of "JObj [(''tool_name'', JStr ''Bash''), (''session_id'', JStr ''s1'')]" exampleEnv
       "\<lparr>tool_name = ''Bash'', tool_input = JNull, session_id = ''s1''\<rparr>"]
    malformed_input_fails_closed [of "toolEvent ''Bash'' [(''command'', JArr [JStr ''rm'', JStr ''-rf'', JStr ''/''])]" exampleEnv
       "\<lparr>tool_name = ''Bash'', tool_input = JObj [(''command'', JArr [JStr ''rm'', JStr ''-rf'', JStr ''/''])], session_id = ''s1''\<rparr>"]
  by (simp add: valid_toolEvent extractCommand_def exampleEnv_def)

text \<open>
  The three home spellings of a path below the home directory (an absolute path) expand
  to the same text.
\<close>

lemma replaceLeading_absolute:
  assumes "prefix ''/'' p" "\<not> prefix ''/'' tok"  "tok \<noteq> []"
  shows "replaceLeading tok H p = p"
proof -
  from assms(1) obtain r where "p = CHR ''/'' # r" by (auto simp: prefix_def)
  moreover obtain c cs where "tok = c # cs" using assms(3) by (cases tok) auto
  ultimately show ?thesis using assms(2) by (simp add: replaceLeading_def)
qed

lemma expandPath_spellings:
  assumes "prefix ''/'' H"
  shows "expandPath H (''~'' @ CHR ''/'' # r) = H @ CHR ''/'' # r"
    and "expandPath H (''$HOME'' @ CHR ''/'' # r) = H @ CHR ''/'' # r"
    and "expandPath H (''${HOME}'' @ CHR ''/'' # r) = H @ CHR ''/'' # r"
proof -
  have a: "prefix ''/'' (H @ CHR ''/'' # r)" using assms by (auto simp: prefix_def)
  show "expandPath H (''~'' @ CHR ''/'' # r) = H @ CHR ''/'' # r"
    by (simp add: expandPath_def replaceLeading_def)
  have "replaceLeading ''$HOME'' H (''$HOME'' @ CHR ''/'' # r) = H @ CHR ''/'' # r"
    by (simp add: replaceLeading_def)
  then show "expandPath H (''$HOME'' @ CHR ''/'' # r) = H @ CHR ''/'' # r"
    using a by (simp add: expandPath_def replaceLeading_absolute)
  have "replaceLeading ''$HOME'' H (''${HOME}'' @ CHR ''/'' # r) = ''${HOME}'' @ CHR ''/'' # r"
    by (simp add: replaceLeading_def)
  moreover have "replaceLeading ''${HOME}'' H (''${HOME}'' @ CHR ''/'' # r) = H @ CHR ''/'' # r"
    by (simp add: replaceLeading_def)
  ultimately show "expandPath H (''${HOME}'' @ CHR ''/'' # r) = H @ CHR ''/'' # r"
    using a by (simp add: expandPath_def replaceLeading_absolute)
qed

lemma render_Cons: "render (s # ss) = CHR ''/'' # s @ concat (map (\<lambda>s. CHR ''/'' # s) ss)"
  by (simp add: render_def)

lemma render_mono:
  assumes "prefix a b"
  shows "prefix (render a) (render b)"
proof -
  from assms obtain c where b: "b = a @ c" by (auto simp: prefix_def)
  show ?thesis
  proof (cases a)
    case Nil
    then show ?thesis by (cases b) (simp_all add: render_def)
  next
    case (Cons x xs)
    then have "render b = render a @ concat (map (\<lambda>s. CHR ''/'' # s) c)"
      using b by (simp add: render_def)
    then show ?thesis by simp
  qed
qed

lemma main_not_Bash:
  assumes "validateInput raw = Some input" "tool_name input \<noteq> ''Bash''" "loadPatterns e = Some pats"
  shows "validatorMain e raw = checkFilePath e input pats"
  using assms by (simp add: validatorMain_def)

lemma checkFilePath_Block_iff:
  assumes "extractPath (tool_input input) = Some path" "path \<noteq> []"
  shows "(\<exists>m. stdout (checkFilePath e input pats) = Some (Block m))
         \<longleftrightarrow> (\<exists>p\<in>set (paths_zeroAccess pats).
               prefix (resolve (cwd e) p) (resolve (cwd e) (expandPath (HOME e) path)))"
  using assms by (auto simp: checkFilePath_def exitWith_def Let_def list_ex_iff)

lemma checkFilePath_Block:
  assumes "extractPath (tool_input input) = Some path" "path \<noteq> []"
    "p \<in> set (paths_zeroAccess pats)"
    "prefix (resolve (cwd e) p) (resolve (cwd e) (expandPath (HOME e) path))"
  shows "checkFilePath e input pats = \<lparr>stdout = Some (Block (InProtectedPath path)), exitCode = 0\<rparr>"
  using assms by (auto simp: checkFilePath_def exitWith_def Let_def list_ex_iff)

text \<open>
  C3 does not hold as the specification states it: with \<open>~/.ssh\<close> protected, reading \<open>~/.ssh-old/notes.txt\<close> is blocked
  although that path is neither the protected directory nor below it.
\<close>

theorem sibling_of_protected_path_blocked_counterexample:
  "loadPatterns exampleEnv = Some examplePatterns
   \<and> paths_zeroAccess examplePatterns = [''/home/u/.ssh'']
   \<and> segments ''/work'' ''/home/u/.ssh'' = [''home'', ''u'', ''.ssh'']
   \<and> segments ''/work'' (expandPath ''/home/u'' ''~/.ssh-old/notes.txt'') = [''home'', ''u'', ''.ssh-old'', ''notes.txt'']
   \<and> \<not> prefix [''home'', ''u'', ''.ssh''] [''home'', ''u'', ''.ssh-old'', ''notes.txt'']
   \<and> validatorMain exampleEnv (toolEvent ''Read'' [(''file_path'', JStr ''~/.ssh-old/notes.txt'')])
       = \<lparr>stdout = Some (Block (InProtectedPath ''~/.ssh-old/notes.txt'')), exitCode = 0\<rparr>"
  by (simp add: example_loads validatorMain_def valid_toolEvent checkFilePath_def extractPath_def exitWith_def
      examplePatterns_paths exampleEnv_dirs resolve_def segments_def render_def expandPath_def
      replaceLeading_def)

text \<open>
  C3, amended: for a Write, Edit or Read invocation with a non-empty \<open>file_path\<close>, the
  engine blocks exactly when the canonical form of some zeroAccess entry is a leading part,
  character by character, of the canonical path (home spellings expanded at the front,
  \<open>..\<close> resolved). Hence every path equal to or below a zeroAccess path is blocked, in each
  of its spellings, and a path that no canonical zeroAccess entry starts is not blocked.
\<close>

theorem zero_access_blocks_by_canonical_prefix:
  assumes "validateInput raw = Some input"
    and "tool_name input \<in> {''Write'', ''Edit'', ''Read''}"
    and "extractPath (tool_input input) = Some path"
    and "path \<noteq> []"
    and "loadPatterns e = Some pats"
  shows "((\<exists>m. stdout (validatorMain e raw) = Some (Block m))
           \<longleftrightarrow> (\<exists>p\<in>set (paths_zeroAccess pats).
                 prefix (resolve (cwd e) p) (resolve (cwd e) (expandPath (HOME e) path))))
       \<and> ((\<exists>p\<in>set (paths_zeroAccess pats).
              prefix (segments (cwd e) p) (segments (cwd e) (expandPath (HOME e) path)))
           \<longrightarrow> validatorMain e raw = \<lparr>stdout = Some (Block (InProtectedPath path)), exitCode = 0\<rparr>)"
proof -
  have nb: "tool_name input \<noteq> ''Bash''" using assms(2) by auto
  have m: "validatorMain e raw = checkFilePath e input pats"
    using assms(1) nb assms(5) by (rule main_not_Bash)
  have one: "(\<exists>m. stdout (validatorMain e raw) = Some (Block m))
           \<longleftrightarrow> (\<exists>p\<in>set (paths_zeroAccess pats).
                 prefix (resolve (cwd e) p) (resolve (cwd e) (expandPath (HOME e) path)))"
    unfolding m using assms(3,4) by (rule checkFilePath_Block_iff)
  have two: "validatorMain e raw = \<lparr>stdout = Some (Block (InProtectedPath path)), exitCode = 0\<rparr>"
    if "\<exists>p\<in>set (paths_zeroAccess pats).
              prefix (segments (cwd e) p) (segments (cwd e) (expandPath (HOME e) path))"
  proof -
    from that obtain p where p: "p \<in> set (paths_zeroAccess pats)"
      "prefix (segments (cwd e) p) (segments (cwd e) (expandPath (HOME e) path))" by blast
    from p(2) have "prefix (resolve (cwd e) p) (resolve (cwd e) (expandPath (HOME e) path))"
      unfolding resolve_def by (rule render_mono)
    with assms(3,4) p(1) show ?thesis unfolding m by (rule checkFilePath_Block)
  qed
  from one two show ?thesis by blast
qed

theorem zero_access_blocks_by_canonical_prefix_witness:
  "validateInput (toolEvent ''Read'' [(''file_path'', JStr ''$HOME/.config/../.ssh/id_rsa'')])
     = Some \<lparr>tool_name = ''Read'', tool_input = JObj [(''file_path'', JStr ''$HOME/.config/../.ssh/id_rsa'')], session_id = ''s1''\<rparr>
   \<and> extractPath (JObj [(''file_path'', JStr ''$HOME/.config/../.ssh/id_rsa'')]) = Some ''$HOME/.config/../.ssh/id_rsa''
   \<and> loadPatterns exampleEnv = Some examplePatterns
   \<and> prefix (segments ''/work'' ''/home/u/.ssh'') (segments ''/work'' (expandPath ''/home/u'' ''$HOME/.config/../.ssh/id_rsa''))
   \<and> validatorMain exampleEnv (toolEvent ''Read'' [(''file_path'', JStr ''$HOME/.config/../.ssh/id_rsa'')])
       = \<lparr>stdout = Some (Block (InProtectedPath ''$HOME/.config/../.ssh/id_rsa'')), exitCode = 0\<rparr>"
proof -
  let ?inp = "\<lparr>tool_name = ''Read'', tool_input = JObj [(''file_path'', JStr ''$HOME/.config/../.ssh/id_rsa'')], session_id = ''s1''\<rparr>"
  have v: "validateInput (toolEvent ''Read'' [(''file_path'', JStr ''$HOME/.config/../.ssh/id_rsa'')]) = Some ?inp"
    by (rule valid_toolEvent)
  have t: "tool_name ?inp \<in> {''Write'', ''Edit'', ''Read''}" by simp
  have x: "extractPath (tool_input ?inp) = Some ''$HOME/.config/../.ssh/id_rsa''"
    by (simp add: extractPath_def)
  have n: "''$HOME/.config/../.ssh/id_rsa'' \<noteq> []" by simp
  have s: "prefix (segments ''/work'' ''/home/u/.ssh'') (segments ''/work'' (expandPath ''/home/u'' ''$HOME/.config/../.ssh/id_rsa''))"
    by (simp add: segments_def expandPath_def replaceLeading_def)
  show ?thesis
    using zero_access_blocks_by_canonical_prefix [OF v t x n example_loads] v x s
    by (simp add: examplePatterns_paths exampleEnv_dirs example_loads)
qed

lemma firstMatch_None_iff: "firstMatch ps s = None \<longleftrightarrow> (\<forall>p\<in>set ps. \<not> regex p s)"
  by (induction ps) auto

lemma firstMatch_first:
  assumes "i < length ps" "regex (ps ! i) s" "\<forall>j<i. \<not> regex (ps ! j) s"
  shows "firstMatch ps s = Some (ps ! i)"
  using assms
proof (induction ps arbitrary: i)
  case Nil
  then show ?case by simp
next
  case (Cons p ps)
  show ?case
  proof (cases i)
    case 0
    with Cons.prems show ?thesis by simp
  next
    case (Suc k)
    have "\<not> regex p s" using Cons.prems(3) Suc by auto
    moreover have "firstMatch ps s = Some (ps ! k)"
    proof (rule Cons.IH)
      show "k < length ps" using Cons.prems(1) Suc by simp
      show "regex (ps ! k) s" using Cons.prems(2) Suc by simp
      show "\<forall>j<k. \<not> regex (ps ! j) s" using Cons.prems(3) Suc by auto
    qed
    ultimately show ?thesis using Suc by simp
  qed
qed

lemma referencesAny_iff:
  "referencesAny e n ps \<longleftrightarrow>
     (\<exists>p\<in>set ps.
        includes_str n (resolve (cwd e) (expandPath (HOME e) p))
        \<or> (prefix (resolve (cwd e) (expandPath (HOME e) ''~'')) (resolve (cwd e) (expandPath (HOME e) p))
            \<and> drop (length (resolve (cwd e) (expandPath (HOME e) ''~''))) (resolve (cwd e) (expandPath (HOME e) p)) \<noteq> []
            \<and> includes_str n (CHR ''~'' #
                 drop (length (resolve (cwd e) (expandPath (HOME e) ''~''))) (resolve (cwd e) (expandPath (HOME e) p)))))"
  by (induction ps) (auto simp: Let_def)

lemma main_Bash:
  assumes "validateInput raw = Some input" "tool_name input = ''Bash''"
    "extractCommand (tool_input input) = Some cmd" "cmd \<noteq> []" "loadPatterns e = Some pats"
  shows "validatorMain e raw =
     (case firstMatch (commands_block pats) (normalizeHomeTokens cmd) of
        Some p \<Rightarrow> exitWith (Block (CommandMatches (source p)))
      | None \<Rightarrow>
          if commandReferencesProtectedPath e (normalizeHomeTokens cmd) (paths_zeroAccess pats)
            then exitWith (Block ReferencesProtectedPath)
          else (case firstMatch (commands_confirm pats) (normalizeHomeTokens cmd) of
                  Some p \<Rightarrow> exitWith (Ask (ConfirmCommand (source p)))
                | None \<Rightarrow> checkFilePath e input pats))"
  using assms by (simp add: validatorMain_def Let_def)

lemma example_push_normalized:
  "normalizeHomeTokens ''git push $HOME/.ssh/id_rsa'' = ''git push ~/.ssh/id_rsa''"
  by (simp add: normalizeHomeTokens_def isWordChar_def)

lemma example_push_references:
  "commandReferencesProtectedPath exampleEnv ''git push ~/.ssh/id_rsa'' [''/home/u/.ssh'']"
  by (simp add: commandReferencesProtectedPath_def normalizeHomeTokens_def exampleEnv_dirs
      resolve_def segments_def render_def expandPath_def replaceLeading_def)

text \<open>
  C4 does not hold as the specification states it: a command that matches a confirm pattern and names a protected path
  is answered with block, not with ask.
\<close>

theorem confirm_with_protected_path_is_blocked_counterexample:
  "loadPatterns exampleEnv = Some examplePatterns
   \<and> normalizeHomeTokens ''git push $HOME/.ssh/id_rsa'' = ''git push ~/.ssh/id_rsa''
   \<and> firstMatch (commands_block examplePatterns) ''git push ~/.ssh/id_rsa'' = None
   \<and> map_option source (firstMatch (commands_confirm examplePatterns) ''git push ~/.ssh/id_rsa'') = Some ''git push''
   \<and> commandReferencesProtectedPath exampleEnv ''git push ~/.ssh/id_rsa'' (paths_zeroAccess examplePatterns)
   \<and> validatorMain exampleEnv (toolEvent ''Bash'' [(''command'', JStr ''git push $HOME/.ssh/id_rsa'')])
       = \<lparr>stdout = Some (Block ReferencesProtectedPath), exitCode = 0\<rparr>"
proof -
  have b: "firstMatch (commands_block examplePatterns) ''git push ~/.ssh/id_rsa'' = None"
    by (simp add: examplePatterns_commands)
  have c: "map_option source (firstMatch (commands_confirm examplePatterns) ''git push ~/.ssh/id_rsa'') = Some ''git push''"
    by (simp add: examplePatterns_commands)
  have r: "commandReferencesProtectedPath exampleEnv ''git push ~/.ssh/id_rsa'' (paths_zeroAccess examplePatterns)"
    using example_push_references by (simp add: examplePatterns_paths)
  have m: "validatorMain exampleEnv (toolEvent ''Bash'' [(''command'', JStr ''git push $HOME/.ssh/id_rsa'')])
       = \<lparr>stdout = Some (Block ReferencesProtectedPath), exitCode = 0\<rparr>"
    by (simp add: validatorMain_def valid_toolEvent example_loads extractCommand_def example_push_normalized
        b r exitWith_def)
  from b c r m show ?thesis by (simp add: example_loads example_push_normalized)
qed

text \<open>
  C4, amended: for a Bash invocation with a non-empty string command the engine normalizes
  the command, returns block for the first matching block pattern in declared order;
  otherwise returns block if the normalized command references a protected path; otherwise
  returns ask for the first matching confirm pattern in declared order; otherwise goes on
  to the file-path checks, which allow when the input carries no \<open>file_path\<close>. A command
  that matches a confirm pattern and references a protected path is blocked.
\<close>

theorem bash_command_evaluation_order:
  assumes "validateInput raw = Some input"
    and "tool_name input = ''Bash''"
    and "extractCommand (tool_input input) = Some cmd"
    and "cmd \<noteq> []"
    and "loadPatterns e = Some pats"
  shows
    "(\<forall>i<length (commands_block pats).
        regex (commands_block pats ! i) (normalizeHomeTokens cmd)
        \<and> (\<forall>j<i. \<not> regex (commands_block pats ! j) (normalizeHomeTokens cmd))
        \<longrightarrow> validatorMain e raw = exitWith (Block (CommandMatches (source (commands_block pats ! i)))))
     \<and> ((\<forall>p\<in>set (commands_block pats). \<not> regex p (normalizeHomeTokens cmd))
        \<longrightarrow> (if commandReferencesProtectedPath e (normalizeHomeTokens cmd) (paths_zeroAccess pats)
             then validatorMain e raw = exitWith (Block ReferencesProtectedPath)
             else (\<forall>i<length (commands_confirm pats).
                     regex (commands_confirm pats ! i) (normalizeHomeTokens cmd)
                     \<and> (\<forall>j<i. \<not> regex (commands_confirm pats ! j) (normalizeHomeTokens cmd))
                     \<longrightarrow> validatorMain e raw = exitWith (Ask (ConfirmCommand (source (commands_confirm pats ! i)))))
                \<and> ((\<forall>p\<in>set (commands_confirm pats). \<not> regex p (normalizeHomeTokens cmd))
                     \<longrightarrow> validatorMain e raw = checkFilePath e input pats
                         \<and> (extractPath (tool_input input) = None \<longrightarrow> validatorMain e raw = exitWith Continue))))"
proof -
  let ?c = "normalizeHomeTokens cmd"
  note m = main_Bash [OF assms]
  have blk: "validatorMain e raw = exitWith (Block (CommandMatches (source (commands_block pats ! i))))"
    if "i < length (commands_block pats)" "regex (commands_block pats ! i) ?c"
       "\<forall>j<i. \<not> regex (commands_block pats ! j) ?c" for i
    using firstMatch_first [OF that] by (simp add: m)
  have rest: "(if commandReferencesProtectedPath e ?c (paths_zeroAccess pats)
             then validatorMain e raw = exitWith (Block ReferencesProtectedPath)
             else (\<forall>i<length (commands_confirm pats).
                     regex (commands_confirm pats ! i) ?c
                     \<and> (\<forall>j<i. \<not> regex (commands_confirm pats ! j) ?c)
                     \<longrightarrow> validatorMain e raw = exitWith (Ask (ConfirmCommand (source (commands_confirm pats ! i)))))
                \<and> ((\<forall>p\<in>set (commands_confirm pats). \<not> regex p ?c)
                     \<longrightarrow> validatorMain e raw = checkFilePath e input pats
                         \<and> (extractPath (tool_input input) = None \<longrightarrow> validatorMain e raw = exitWith Continue)))"
    if nb: "\<forall>p\<in>set (commands_block pats). \<not> regex p ?c"
  proof -
    have fb: "firstMatch (commands_block pats) ?c = None" using nb by (simp add: firstMatch_None_iff)
    show ?thesis
    proof (cases "commandReferencesProtectedPath e ?c (paths_zeroAccess pats)")
      case True
      then show ?thesis by (simp add: m fb)
    next
      case False
      have ask: "validatorMain e raw = exitWith (Ask (ConfirmCommand (source (commands_confirm pats ! i))))"
        if "i < length (commands_confirm pats)" "regex (commands_confirm pats ! i) ?c"
           "\<forall>j<i. \<not> regex (commands_confirm pats ! j) ?c" for i
        using firstMatch_first [OF that] False by (simp add: m fb)
      have fall: "validatorMain e raw = checkFilePath e input pats
           \<and> (extractPath (tool_input input) = None \<longrightarrow> validatorMain e raw = exitWith Continue)"
        if "\<forall>p\<in>set (commands_confirm pats). \<not> regex p ?c"
      proof -
        have "firstMatch (commands_confirm pats) ?c = None" using that by (simp add: firstMatch_None_iff)
        then have "validatorMain e raw = checkFilePath e input pats" using False by (simp add: m fb)
        then show ?thesis by (simp add: checkFilePath_def)
      qed
      from ask fall False show ?thesis by (simp only: if_False) blast
    qed
  qed
  from blk rest show ?thesis by blast
qed

theorem bash_command_evaluation_order_witness:
  "validateInput (toolEvent ''Bash'' [(''command'', JStr ''git push $HOME/.ssh/id_rsa'')])
     = Some \<lparr>tool_name = ''Bash'', tool_input = JObj [(''command'', JStr ''git push $HOME/.ssh/id_rsa'')], session_id = ''s1''\<rparr>
   \<and> extractCommand (JObj [(''command'', JStr ''git push $HOME/.ssh/id_rsa'')]) = Some ''git push $HOME/.ssh/id_rsa''
   \<and> loadPatterns exampleEnv = Some examplePatterns
   \<and> firstMatch (commands_block examplePatterns) (normalizeHomeTokens ''git push $HOME/.ssh/id_rsa'') = None
   \<and> validatorMain exampleEnv (toolEvent ''Bash'' [(''command'', JStr ''git push $HOME/.ssh/id_rsa'')])
       = exitWith (Block ReferencesProtectedPath)"
proof -
  let ?inp = "\<lparr>tool_name = ''Bash'', tool_input = JObj [(''command'', JStr ''git push $HOME/.ssh/id_rsa'')], session_id = ''s1''\<rparr>"
  have v: "validateInput (toolEvent ''Bash'' [(''command'', JStr ''git push $HOME/.ssh/id_rsa'')]) = Some ?inp"
    by (rule valid_toolEvent)
  have t: "tool_name ?inp = ''Bash''" by simp
  have x: "extractCommand (tool_input ?inp) = Some ''git push $HOME/.ssh/id_rsa''"
    by (simp add: extractCommand_def)
  have n: "''git push $HOME/.ssh/id_rsa'' \<noteq> []" by simp
  have nb: "\<forall>p\<in>set (commands_block examplePatterns). \<not> regex p (normalizeHomeTokens ''git push $HOME/.ssh/id_rsa'')"
    by (simp add: examplePatterns_commands example_push_normalized)
  have r: "commandReferencesProtectedPath exampleEnv (normalizeHomeTokens ''git push $HOME/.ssh/id_rsa'')
             (paths_zeroAccess examplePatterns)"
    using example_push_references by (simp add: examplePatterns_paths example_push_normalized)
  show ?thesis
    using bash_command_evaluation_order [OF v t x n example_loads] v x nb r
    by (simp add: example_loads extractCommand_def firstMatch_None_iff)
qed

section \<open>Facts about the scoring loop\<close>

lemma set_insertMatch: "set (insertMatch a bs) = insert a (set bs)"
  by (induction bs) auto

lemma set_sortMatches: "set (sortMatches ms) = set ms"
  by (induction ms) (simp_all add: sortMatches_def set_insertMatch)

lemma set_slice0: "set (slice0 xs n) \<subseteq> set xs"
  by (simp add: slice0_def set_take_subset)

lemma scoreRule_Match:
  assumes "scoreRule h prompt r w t = Match m"
  shows "rule m = r
       \<and> (\<exists>ds. dimensions h prompt r w = Returned ds \<and> (\<exists>d\<in>set ds. 0 < count d))"
proof -
  from assms obtain ds where ds: "dimensions h prompt r w = Returned ds"
    by (auto simp: scoreRule_def split: attempt.splits)
  have tm: "foldl (\<lambda>s d. s + count d) 0 ds \<noteq> 0"
    using assms ds by (auto simp: scoreRule_def Let_def split: if_splits)
  have "\<exists>d\<in>set ds. 0 < count d"
  proof (rule ccontr)
    assume "\<not> (\<exists>d\<in>set ds. 0 < count d)"
    then have z: "\<forall>d\<in>set ds. count d = 0" by auto
    have "foldl (\<lambda>s d. s + count d) n ds = n" for n
      using z by (induction ds arbitrary: n) auto
    with tm show False by simp
  qed
  moreover have "rule m = r"
    using assms ds by (auto simp: scoreRule_def Let_def split: if_splits)
  ultimately show ?thesis using ds by blast
qed

lemma scoreRule_no_match:
  assumes "dimensions h prompt r w = Returned ds" "\<forall>d\<in>set ds. count d = 0"
  shows "scoreRule h prompt r w t = Null"
proof -
  have "foldl (\<lambda>s d. s + count d) n ds = n" for n
    using assms(2) by (induction ds arbitrary: n) auto
  then show ?thesis using assms(1) by (simp add: scoreRule_def Let_def)
qed

lemma isOnCooldown_state:
  assumes "isOnCooldown h st sk c = (b, st1)"
  shows "cooldownMap st1 = cooldownMap st \<and> readings st \<le> readings st1"
  using assms by (auto simp: isOnCooldown_def split: option.splits if_splits)

text \<open>The cooldown check of one turn of the loop, as \<open>collect\<close> makes it.\<close>

lemma collect_Cons_Null:
  assumes "scoreRule h prompt r w t = Null"
  shows "\<exists>st1. cooldownMap st1 = cooldownMap st \<and> readings st \<le> readings st1
           \<and> collect h prompt w t (r # rest) st = collect h prompt w t rest st1"
proof (cases "type r = Proactive")
  case False
  then show ?thesis by auto
next
  case True
  show ?thesis
  proof (cases "cooldown r")
    case None
    with True assms show ?thesis by auto
  next
    case (Some c)
    show ?thesis
    proof (cases "c = 0")
      case True
      with \<open>type r = Proactive\<close> Some assms show ?thesis by auto
    next
      case False
      obtain b st1 where b: "isOnCooldown h st (skill r) c = (b, st1)" by (cases "isOnCooldown h st (skill r) c")
      have "cooldownMap st1 = cooldownMap st" "readings st \<le> readings st1"
        using isOnCooldown_state [OF b] by simp_all
      moreover have "collect h prompt w t (r # rest) st = collect h prompt w t rest st1"
        using True Some False b assms by simp
      ultimately show ?thesis by blast
    qed
  qed
qed

lemma collect_sound:
  assumes "collect h prompt w t rs st = Returned (ms, st')"
  shows "cooldownMap st' = cooldownMap st \<and> readings st \<le> readings st'
       \<and> (\<forall>m\<in>set ms. rule m \<in> set rs \<and> type (rule m) = Proactive
              \<and> scoreRule h prompt (rule m) w t = Match m)"
  using assms
proof (induction rs arbitrary: st ms st')
  case Nil
  then show ?case by simp
next
  case (Cons r rest)
  show ?case
  proof (cases "type r = Proactive")
    case False
    then have "collect h prompt w t rest st = Returned (ms, st')" using Cons.prems by simp
    from Cons.IH [OF this] show ?thesis by auto
  next
    case True
    define chk where "chk = (case cooldown r of None \<Rightarrow> (False, st)
        | Some c \<Rightarrow> if c = 0 then (False, st) else isOnCooldown h st (skill r) c)"
    obtain b st1 where b: "chk = (b, st1)" by (cases chk)
    have st1: "cooldownMap st1 = cooldownMap st" "readings st \<le> readings st1"
      using b by (auto simp: chk_def split: option.splits if_splits dest: isOnCooldown_state)
    have step: "collect h prompt w t (r # rest) st =
        (if b then collect h prompt w t rest st1
         else case scoreRule h prompt r w t of
                Raises \<Rightarrow> Raised
              | Null \<Rightarrow> collect h prompt w t rest st1
              | Match m \<Rightarrow> (case collect h prompt w t rest st1 of
                             Raised \<Rightarrow> Raised
                           | Returned (ms, st2) \<Rightarrow> Returned (m # ms, st2)))"
      using True b by (simp add: chk_def)
    show ?thesis
    proof (cases "b \<or> scoreRule h prompt r w t = Null")
      case True
      then have "collect h prompt w t rest st1 = Returned (ms, st')"
        using Cons.prems step by auto
      from Cons.IH [OF this] st1 show ?thesis by auto
    next
      case False
      then obtain m where m: "scoreRule h prompt r w t = Match m"
        using Cons.prems step by (cases "scoreRule h prompt r w t") auto
      then obtain ms' where ms': "collect h prompt w t rest st1 = Returned (ms', st')" "ms = m # ms'"
        using Cons.prems step False by (auto split: attempt.splits)
      have rm: "rule m = r" using scoreRule_Match [OF m] by simp
      from Cons.IH [OF ms'(1)] st1 ms'(2) m rm \<open>type r = Proactive\<close> show ?thesis by auto
    qed
  qed
qed

lemma ranked_Some:
  assumes "ranked h st raw = Some (rs, emitted, st1)"
  shows "\<exists>prompt text matches.
           promptOf raw = Some prompt \<and> rulesFile h = Contents text \<and> parseRules h text = Some rs
           \<and> \<not> isExcluded h prompt (exclusions_prefixes rs) (exclusions_patterns rs)
           \<and> collect h prompt (defaults_weights rs) (defaults_threshold rs) (rules rs) st = Returned (matches, st1)
           \<and> matches \<noteq> []
           \<and> emitted = slice0 (sortMatches matches) (settings_maxSuggestions rs)"
  using assms
  by (auto simp: ranked_def split: option.splits fileState.splits if_splits attempt.splits)

lemma ranked_members:
  assumes "ranked h st raw = Some (rs, emitted, st1)" "m \<in> set emitted"
  shows "\<exists>prompt. promptOf raw = Some prompt \<and> rule m \<in> set (rules rs) \<and> type (rule m) = Proactive
           \<and> scoreRule h prompt (rule m) (defaults_weights rs) (defaults_threshold rs) = Match m"
proof -
  from ranked_Some [OF assms(1)] obtain prompt matches where
    p: "promptOf raw = Some prompt"
    and c: "collect h prompt (defaults_weights rs) (defaults_threshold rs) (rules rs) st = Returned (matches, st1)"
    and t: "emitted = slice0 (sortMatches matches) (settings_maxSuggestions rs)" by blast
  have "m \<in> set matches" using assms(2) t set_slice0 set_sortMatches by fastforce
  with collect_sound [OF c] p show ?thesis by blast
qed

lemma emit_parts: "fst (emit h rs ms st) = map (part h rs) ms"
proof (induction ms arbitrary: st)
  case Nil
  show ?case by simp
next
  case (Cons m ms)
  obtain ps st2 where e: "emit h rs ms (recordFire h st (skill (rule m))) = (ps, st2)"
    by (cases "emit h rs ms (recordFire h st (skill (rule m)))")
  have "ps = map (part h rs) ms"
    using Cons.IH [of "recordFire h st (skill (rule m))"] e by simp
  then show ?case using e by simp
qed

lemma main_printed:
  assumes "ranked h st raw = Some (rs, emitted, st1)"
  shows "printed (skillEvalMain h st raw) =
     (if emitted = [] then None
      else Some (''<system-reminder>'' @ [CHR 0x0A] @ joinParts (map (part h rs) emitted) @ [CHR 0x0A]
                 @ ''</system-reminder>''))"
proof -
  obtain ps st2 where e: "emit h rs emitted st1 = (ps, st2)" by (cases "emit h rs emitted st1")
  have "ps = map (part h rs) emitted" using emit_parts [of h rs emitted st1] e by simp
  then show ?thesis using assms e by (simp add: skillEvalMain_def)
qed

lemma example_parse:
  "rulesFile exampleHost = Contents ''{}''" "parseRules exampleHost ''{}'' = Some exampleRules"
  by (simp_all add: exampleHost_def)

lemma example_not_excluded:
  "\<not> isExcluded exampleHost ''create a new skill for my project''
       (exclusions_prefixes exampleRules) (exclusions_patterns exampleRules)"
  by code_simp

lemma example_rules: "rules exampleRules = [idleRule, guardRule, projectRule, createSkillRule]"
  by (simp add: exampleRules_def)

lemma example_settings: "settings_maxSuggestions exampleRules = 1" "settings_showScores exampleRules = False"
  by (simp_all add: exampleRules_def)

lemma example_rule_fields:
  "type idleRule = Proactive" "cooldown idleRule = None"
  "type guardRule = Guard"
  "type projectRule = Proactive" "cooldown projectRule = None"
  "type createSkillRule = Proactive" "cooldown createSkillRule = Some 60" "skill createSkillRule = ''CreateSkill''"
  by (simp_all add: idleRule_def guardRule_def projectRule_def createSkillRule_def)

lemma example_scores:
  "scoreRule exampleHost ''create a new skill for my project'' idleRule
     (defaults_weights exampleRules) (defaults_threshold exampleRules) = Null"
  "scoreRule exampleHost ''create a new skill for my project'' projectRule
     (defaults_weights exampleRules) (defaults_threshold exampleRules)
     = Match \<lparr>rule = projectRule, normalizedScore = Finite 100, finalScore = Finite 50\<rparr>"
  "scoreRule exampleHost ''create a new skill for my project'' createSkillRule
     (defaults_weights exampleRules) (defaults_threshold exampleRules)
     = Match \<lparr>rule = createSkillRule, normalizedScore = Finite 75, finalScore = Finite 75\<rparr>"
  by code_simp+

lemma example_collect:
  "collect exampleHost ''create a new skill for my project''
     (defaults_weights exampleRules) (defaults_threshold exampleRules) (rules exampleRules) freshProcess
   = Returned ([\<lparr>rule = projectRule, normalizedScore = Finite 100, finalScore = Finite 50\<rparr>,
                \<lparr>rule = createSkillRule, normalizedScore = Finite 75, finalScore = Finite 75\<rparr>],
               freshProcess)"
  by (simp add: example_rules example_rule_fields example_scores isOnCooldown_def freshProcess_def)

lemma example_ranked:
  "ranked exampleHost freshProcess (promptEvent ''create a new skill for my project'')
     = Some (exampleRules,
             [\<lparr>rule = createSkillRule, normalizedScore = Finite 75, finalScore = Finite 75\<rparr>],
             freshProcess)"
  by (simp add: ranked_def promptOf_def promptEvent_def example_parse example_not_excluded
      example_collect example_settings sortMatches_def comparator_def slice0_def)

section \<open>Properties of the activation scoring engine\<close>

lemma dimensions_no_triggers:
  assumes "keywords' (triggers r) = []" "patterns (triggers r) = []" "directories (triggers r) = []"
    "intents (triggers r) = []" "fileTypes (triggers r) = []"
  shows "dimensions h prompt r w = Returned []"
  using assms by (simp add: dimensions_def)

text \<open>
  C6: a rule none of whose trigger dimensions has a match (also one whose trigger lists
  are all empty, which has no dimension at all) is scored \<open>null\<close> and adds nothing to the
  list of matches; every rule in the ranked output has a dimension with at least one
  match.
\<close>

theorem unmatched_rule_never_ranked:
  "(keywords' (triggers r) = [] \<and> patterns (triggers r) = [] \<and> directories (triggers r) = []
      \<and> intents (triggers r) = [] \<and> fileTypes (triggers r) = []
     \<longrightarrow> dimensions h prompt r w = Returned [])
   \<and> (dimensions h prompt r w = Returned ds \<and> (\<forall>d\<in>set ds. count d = 0)
     \<longrightarrow> scoreRule h prompt r w t = Null
         \<and> (\<exists>st1. cooldownMap st1 = cooldownMap st
                \<and> collect h prompt w t (r # rest) st = collect h prompt w t rest st1))
   \<and> (ranked h st raw = Some (rs, emitted, st')
     \<longrightarrow> (\<forall>m\<in>set emitted. \<exists>p ds'. promptOf raw = Some p
             \<and> dimensions h p (rule m) (defaults_weights rs) = Returned ds'
             \<and> (\<exists>d\<in>set ds'. 0 < count d)))"
proof (intro conjI impI)
  assume "keywords' (triggers r) = [] \<and> patterns (triggers r) = [] \<and> directories (triggers r) = []
      \<and> intents (triggers r) = [] \<and> fileTypes (triggers r) = []"
  then show "dimensions h prompt r w = Returned []" by (simp add: dimensions_no_triggers)
next
  assume a: "dimensions h prompt r w = Returned ds \<and> (\<forall>d\<in>set ds. count d = 0)"
  then show "scoreRule h prompt r w t = Null" by (simp add: scoreRule_no_match)
  then show "\<exists>st1. cooldownMap st1 = cooldownMap st
                \<and> collect h prompt w t (r # rest) st = collect h prompt w t rest st1"
    using collect_Cons_Null by blast
next
  assume a: "ranked h st raw = Some (rs, emitted, st')"
  show "\<forall>m\<in>set emitted. \<exists>p ds'. promptOf raw = Some p
             \<and> dimensions h p (rule m) (defaults_weights rs) = Returned ds'
             \<and> (\<exists>d\<in>set ds'. 0 < count d)"
  proof
    fix m assume "m \<in> set emitted"
    from ranked_members [OF a this] obtain p where
      p: "promptOf raw = Some p"
      and s: "scoreRule h p (rule m) (defaults_weights rs) (defaults_threshold rs) = Match m" by blast
    from scoreRule_Match [OF s] p
    show "\<exists>p ds'. promptOf raw = Some p
             \<and> dimensions h p (rule m) (defaults_weights rs) = Returned ds'
             \<and> (\<exists>d\<in>set ds'. 0 < count d)" by blast
  qed
qed

theorem unmatched_rule_never_ranked_witness:
  "idleRule \<in> set (rules exampleRules)
   \<and> dimensions exampleHost ''create a new skill for my project'' idleRule (defaults_weights exampleRules)
       = Returned []
   \<and> scoreRule exampleHost ''create a new skill for my project'' idleRule (defaults_weights exampleRules)
       (defaults_threshold exampleRules) = Null
   \<and> ranked exampleHost freshProcess (promptEvent ''create a new skill for my project'')
       = Some (exampleRules,
               [\<lparr>rule = createSkillRule, normalizedScore = Finite 75, finalScore = Finite 75\<rparr>],
               freshProcess)
   \<and> (\<exists>ds'. dimensions exampleHost ''create a new skill for my project'' createSkillRule
                 (defaults_weights exampleRules) = Returned ds'
              \<and> (\<exists>d\<in>set ds'. 0 < count d))"
proof -
  have p: "promptOf (promptEvent ''create a new skill for my project'')
             = Some ''create a new skill for my project''"
    by (simp add: promptOf_def promptEvent_def)
  have i: "keywords' (triggers idleRule) = [] \<and> patterns (triggers idleRule) = []
      \<and> directories (triggers idleRule) = [] \<and> intents (triggers idleRule) = []
      \<and> fileTypes (triggers idleRule) = []"
    by (simp add: idleRule_def)
  show ?thesis
    using unmatched_rule_never_ranked [where r = idleRule and h = exampleHost
        and prompt = "''create a new skill for my project''"
        and w = "defaults_weights exampleRules" and ds = "[]"
        and t = "defaults_threshold exampleRules" and st = freshProcess and rest = "[]"
        and raw = "promptEvent ''create a new skill for my project''" and rs = exampleRules
        and emitted = "[\<lparr>rule = createSkillRule, normalizedScore = Finite 75, finalScore = Finite 75\<rparr>]"
        and st' = freshProcess]
      i p example_ranked
    by (simp add: example_rules)
qed


















lemma ranked_no_rules:
  assumes "rulesFile h = Absent \<or> rulesFile h = Unreadable
           \<or> (\<exists>text. rulesFile h = Contents text \<and> parseRules h text = None)"
  shows "ranked h st raw = None"
  using assms by (auto simp: ranked_def split: option.splits)

text \<open>
  C9: when the rule file is absent, cannot be read, or does not parse, the evaluator
  prints nothing, ends with status 0 and leaves the cooldown table as it was, whatever
  the payload. (Every run of the evaluator ends with status 0.)
\<close>

theorem no_rules_is_a_silent_no_op:
  "(rulesFile h = Absent \<or> rulesFile h = Unreadable
      \<or> (\<exists>text. rulesFile h = Contents text \<and> parseRules h text = None)
     \<longrightarrow> skillEvalMain h st raw = \<lparr>printed = None, status = 0, cooldowns = cooldownMap st\<rparr>)
   \<and> status (skillEvalMain h st raw) = 0"
proof
  show "rulesFile h = Absent \<or> rulesFile h = Unreadable
      \<or> (\<exists>text. rulesFile h = Contents text \<and> parseRules h text = None)
     \<longrightarrow> skillEvalMain h st raw = \<lparr>printed = None, status = 0, cooldowns = cooldownMap st\<rparr>"
    using ranked_no_rules [of h st raw] by (auto simp: skillEvalMain_def)
  show "status (skillEvalMain h st raw) = 0"
    by (simp add: skillEvalMain_def split: option.splits prod.splits)
qed

theorem no_rules_is_a_silent_no_op_witness:
  "rulesFile (exampleHost\<lparr>parseRules := (\<lambda>text. None)\<rparr>) = Contents ''{}''
   \<and> parseRules (exampleHost\<lparr>parseRules := (\<lambda>text. None)\<rparr>) ''{}'' = None
   \<and> skillEvalMain (exampleHost\<lparr>parseRules := (\<lambda>text. None)\<rparr>) freshProcess
        (promptEvent ''create a new skill for my project'')
      = \<lparr>printed = None, status = 0, cooldowns = cooldownMap freshProcess\<rparr>
   \<and> skillEvalMain (exampleHost\<lparr>rulesFile := Absent\<rparr>) freshProcess
        (promptEvent ''create a new skill for my project'')
      = \<lparr>printed = None, status = 0, cooldowns = cooldownMap freshProcess\<rparr>"
  using no_rules_is_a_silent_no_op [where h = "exampleHost\<lparr>parseRules := (\<lambda>text. None)\<rparr>"
      and st = freshProcess and raw = "promptEvent ''create a new skill for my project''"]
    no_rules_is_a_silent_no_op [where h = "exampleHost\<lparr>rulesFile := Absent\<rparr>"
      and st = freshProcess and raw = "promptEvent ''create a new skill for my project''"]
  by (simp add: exampleHost_def)

text \<open>
  C10: only rules of type \<open>proactive\<close> are ranked when a prompt is submitted: each ranked
  match belongs to a proactive rule of the rule file, whatever the score, priority,
  enforcement or cooldown of the reactive and guard rules, and what is printed is made of
  the ranked matches alone.
\<close>

theorem only_proactive_rules_ranked:
  "(ranked h st raw = Some (rs, emitted, st1)
     \<longrightarrow> (\<forall>m\<in>set emitted. type (rule m) = Proactive \<and> rule m \<in> set (rules rs))
         \<and> printed (skillEvalMain h st raw) =
             (if emitted = [] then None
              else Some (''<system-reminder>'' @ [CHR 0x0A] @ joinParts (map (part h rs) emitted)
                         @ [CHR 0x0A] @ ''</system-reminder>'')))
   \<and> (ranked h st raw = None \<longrightarrow> printed (skillEvalMain h st raw) = None)"
proof (intro conjI impI)
  assume a: "ranked h st raw = Some (rs, emitted, st1)"
  show "\<forall>m\<in>set emitted. type (rule m) = Proactive \<and> rule m \<in> set (rules rs)"
    using ranked_members [OF a] by blast
  show "printed (skillEvalMain h st raw) =
             (if emitted = [] then None
              else Some (''<system-reminder>'' @ [CHR 0x0A] @ joinParts (map (part h rs) emitted)
                         @ [CHR 0x0A] @ ''</system-reminder>''))"
    using a by (rule main_printed)
next
  assume "ranked h st raw = None"
  then show "printed (skillEvalMain h st raw) = None" by (simp add: skillEvalMain_def)
qed

theorem only_proactive_rules_ranked_witness:
  "guardRule \<in> set (rules exampleRules) \<and> type guardRule = Guard
   \<and> triggers guardRule = triggers createSkillRule
   \<and> ranked exampleHost freshProcess (promptEvent ''create a new skill for my project'')
       = Some (exampleRules,
               [\<lparr>rule = createSkillRule, normalizedScore = Finite 75, finalScore = Finite 75\<rparr>],
               freshProcess)
   \<and> type createSkillRule = Proactive
   \<and> printed (skillEvalMain exampleHost freshProcess (promptEvent ''create a new skill for my project''))
       = Some (''<system-reminder>'' @ [CHR 0x0A] @ ''Skill suggestion: Use the CreateSkill skill''
               @ [CHR 0x0A] @ ''</system-reminder>'')"
proof -
  have g: "triggers guardRule = triggers createSkillRule" by (simp add: guardRule_def)
  have pt: "part exampleHost exampleRules
              \<lparr>rule = createSkillRule, normalizedScore = Finite 75, finalScore = Finite 75\<rparr>
            = ''Skill suggestion: Use the CreateSkill skill''"
    by (simp add: part_def scoreStr_def example_settings createSkillRule_def)
  show ?thesis
    using only_proactive_rules_ranked [where h = exampleHost and st = freshProcess
        and raw = "promptEvent ''create a new skill for my project''" and rs = exampleRules
        and emitted = "[\<lparr>rule = createSkillRule, normalizedScore = Finite 75, finalScore = Finite 75\<rparr>]"
        and ?st1.0 = freshProcess]
      example_ranked g pt
    by (simp add: example_rules example_rule_fields)
qed

end
